theory Spec2Isabelle
  imports Complex_Main "HOL-Library.Sublist" "HOL-Library.AList" "HOL-Library.Word"
begin

unbundle bit_operations_syntax

section \<open>Values shared by the whole application\<close>

text \<open>
  JavaScript exceptions are values.  \<open>TypeError\<close> is what the engine throws on a member
  access through \<open>null\<close>/\<open>undefined\<close> or on a call of something that is not a function
  (its message is engine specific, the model writes a descriptive one); \<open>SyntaxError\<close> is
  what \<open>JSON.parse\<close> throws; \<open>Error\<close> is \<open>new Error(message)\<close>; \<open>DOMException\<close> is what
  the browser's media and audio interfaces throw or reject with.
\<close>

datatype exn =
    TypeError string
  | SyntaxError string
  | Error string
  | DOMException string

fun message :: "exn \<Rightarrow> string" where
  "message (TypeError m) = m"
| "message (SyntaxError m) = m"
| "message (Error m) = m"
| "message (DOMException m) = m"

text \<open>
  The value \<open>JSON.parse\<close> returns.  An object is the list of its own properties in
  insertion order.
\<close>

datatype json =
    JNull
  | JBool bool
  | JNumber real
  | JString string
  | JArray "json list"
  | JObject "(string \<times> json) list"

section \<open>services/geminiService.ts: getNearbyPlaces\<close>

record GroundingSource =
  uri :: string
  title :: string
  type :: string

text \<open>
  A grounding chunk of the response: \<open>chunk.web\<close> and \<open>chunk.maps\<close> are optional, and so
  are their \<open>uri\<close> and \<open>title\<close>.
\<close>

record link =
  linkUri :: "string option"
  linkTitle :: "string option"

record groundingChunk =
  web :: "link option"
  maps :: "link option"

text \<open>JavaScript truthiness of an optional string: present and not empty.\<close>

fun truthy :: "string option \<Rightarrow> bool" where
  "truthy None = False"
| "truthy (Some s) = (s \<noteq> [])"

text \<open>\<open>a || b\<close> for an optional string \<open>a\<close> and a string \<open>b\<close>.\<close>

fun orElse :: "string option \<Rightarrow> string \<Rightarrow> string" where
  "orElse None d = d"
| "orElse (Some s) d = (if s = [] then d else s)"

definition chunkSources :: "groundingChunk \<Rightarrow> GroundingSource list" where
  "chunkSources chunk =
     (case web chunk of
        None \<Rightarrow> []
      | Some w \<Rightarrow>
          (if truthy (linkUri w)
           then [\<lparr>uri = the (linkUri w), title = orElse (linkTitle w) ''Web Source'', type = ''web''\<rparr>]
           else []))
     @
     (case maps chunk of
        None \<Rightarrow> []
      | Some m \<Rightarrow>
          (if truthy (linkUri m)
           then [\<lparr>uri = the (linkUri m), title = orElse (linkTitle m) ''Map Location'', type = ''maps''\<rparr>]
           else []))"

definition collectSources :: "groundingChunk list \<Rightarrow> GroundingSource list" where
  "collectSources groundingChunks = concat (map chunkSources groundingChunks)"

text \<open>
  The pattern \<^verbatim>\<open>/```json\n([\s\S]*?)\n```/\<close>.  \<open>splitAtFirst pat s\<close> cuts \<open>s\<close> at the leftmost
  occurrence of \<open>pat\<close> and returns what is before and what is after it.  The pattern has
  no flag, so \<open>match\<close> returns the leftmost match: the opening marker is the leftmost
  \<^verbatim>\<open>```json\n\<close>; the group is lazy, so it ends at the first \<^verbatim>\<open>\n```\<close> after that marker.  (A
  later opening marker cannot succeed where the leftmost one fails: a closing marker after
  the later one is also after the leftmost one.)
\<close>

definition newline :: char where
  "newline = CHR 0x0A"

definition fenceOpen :: string where
  "fenceOpen = ''```json'' @ [newline]"

definition fenceClose :: string where
  "fenceClose = newline # ''```''"

fun splitAtFirst :: "string \<Rightarrow> string \<Rightarrow> (string \<times> string) option" where
  "splitAtFirst pat [] = (if pat = [] then Some ([], []) else None)"
| "splitAtFirst pat (c # cs) =
     (if prefix pat (c # cs) then Some ([], drop (length pat) (c # cs))
      else (case splitAtFirst pat cs of
              None \<Rightarrow> None
            | Some (before, after) \<Rightarrow> Some (c # before, after)))"

text \<open>\<open>jsonMatch text\<close> is \<open>jsonMatch[1]\<close> when the pattern matches, \<open>None\<close> when \<open>match\<close>
  returns \<open>null\<close>.\<close>

definition jsonMatch :: "string \<Rightarrow> string option" where
  "jsonMatch text =
     (case splitAtFirst fenceOpen text of
        None \<Rightarrow> None
      | Some (before, rest) \<Rightarrow>
          (case splitAtFirst fenceClose rest of
             None \<Rightarrow> None
           | Some (captured, after) \<Rightarrow> Some captured))"

text \<open>
  The response of \<open>generateContent\<close>, as far as the function reads it: \<open>response.text\<close>
  (a getter that may yield \<open>undefined\<close>) and the grounding chunks of the first candidate
  (\<open>|| []\<close> when any link of the optional chain is missing).
\<close>

record response =
  responseText :: "string option"
  groundingChunks :: "groundingChunk list"

definition formatErrorMessage :: string where
  "formatErrorMessage = ''The AI returned an unexpected format. Please try again.''"

text \<open>
  The body of the \<open>try\<close> block.  \<open>JSON.parse\<close> is the engine's: it is the parameter
  \<open>parse\<close>, which returns the parsed value or the \<open>SyntaxError\<close> it throws.
\<close>

definition parsePlaces :: "(string \<Rightarrow> exn + json) \<Rightarrow> string option \<Rightarrow> exn + json" where
  "parsePlaces parse text =
     (case text of
        None \<Rightarrow> Inl (TypeError ''Cannot read properties of undefined (reading match)'')
      | Some t \<Rightarrow>
          (case jsonMatch t of
             None \<Rightarrow> Inl (Error ''Could not find a JSON code block in the response.'')
           | Some jsonString \<Rightarrow>
               (if jsonString = []
                then Inl (Error ''Could not find a JSON code block in the response.'')
                else parse jsonString)))"

text \<open>\<open>getNearbyPlaces\<close> after the request has been answered with \<open>resp\<close>: the \<open>catch\<close>
  replaces whatever was thrown by the one format error.\<close>

definition getNearbyPlaces ::
  "(string \<Rightarrow> exn + json) \<Rightarrow> response \<Rightarrow> exn + (json \<times> GroundingSource list)" where
  "getNearbyPlaces parse resp =
     (let sources = collectSources (groundingChunks resp) in
      case parsePlaces parse (responseText resp) of
        Inl e \<Rightarrow> Inl (Error formatErrorMessage)
      | Inr places \<Rightarrow> Inr (places, sources))"

section \<open>components/DiscoverView.tsx: getCategoryImage and handleFetchPlaces\<close>

text \<open>
  Strings are lists of 8-bit characters.  \<open>toLowerCase\<close> maps \<open>A\<close>..\<open>Z\<close> to \<open>a\<close>..\<open>z\<close>
  and leaves every other character alone (the ASCII part of the JavaScript function).
\<close>

definition toLowerChar :: "char \<Rightarrow> char" where
  "toLowerChar c =
     (let n = (of_char c :: nat) in if 65 \<le> n \<and> n \<le> 90 then char_of (n + 32) else c)"

definition toLowerCase :: "string \<Rightarrow> string" where
  "toLowerCase s = map toLowerChar s"

text \<open>\<open>s.includes(key)\<close>: \<open>key\<close> occurs in \<open>s\<close> as a contiguous run.\<close>

fun includes_str :: "string \<Rightarrow> string \<Rightarrow> bool" where
  "includes_str [] key = (key = [])"
| "includes_str (c # cs) key = (prefix key (c # cs) \<or> includes_str cs key)"

definition natureImage :: string where
  "natureImage = ''https://images.pexels.com/photos/3225517/pexels-photo-3225517.jpeg?auto=compress&cs=tinysrgb&w=1260&h=750&dpr=1''"

definition architectureImage :: string where
  "architectureImage = ''https://images.pexels.com/photos/161439/architecture-building-france-landmark-161439.jpeg?auto=compress&cs=tinysrgb&w=1260&h=750&dpr=1''"

definition historyImage :: string where
  "historyImage = ''https://images.pexels.com/photos/326900/pexels-photo-326900.jpeg?auto=compress&cs=tinysrgb&w=1260&h=750&dpr=1''"

definition foodImage :: string where
  "foodImage = ''https://images.pexels.com/photos/262978/pexels-photo-262978.jpeg?auto=compress&cs=tinysrgb&w=1260&h=750&dpr=1''"

definition artImage :: string where
  "artImage = ''https://images.pexels.com/photos/102127/pexels-photo-102127.jpeg?auto=compress&cs=tinysrgb&w=1260&h=750&dpr=1''"

definition otherImage :: string where
  "otherImage = ''https://images.pexels.com/photos/417074/pexels-photo-417074.jpeg?auto=compress&cs=tinysrgb&w=1260&h=750&dpr=1''"

text \<open>The object \<open>categories\<close>; \<open>for (const key in categories)\<close> visits its keys in this
  order.\<close>

definition categories :: "(string \<times> string) list" where
  "categories =
     [(''nature'', natureImage),
      (''architecture'', architectureImage),
      (''history'', historyImage),
      (''food'', foodImage),
      (''art'', artImage),
      (''other'', otherImage)]"

text \<open>The loop: the value of the first key that \<open>categoryLower\<close> includes.\<close>

fun firstIncluded :: "string \<Rightarrow> (string \<times> string) list \<Rightarrow> string option" where
  "firstIncluded categoryLower [] = None"
| "firstIncluded categoryLower ((key, url) # rest) =
     (if includes_str categoryLower key then Some url else firstIncluded categoryLower rest)"

definition getCategoryImage :: "string option \<Rightarrow> string" where
  "getCategoryImage category =
     (let defaultCategory = ''other'';
          categoryLower = orElse (map_option toLowerCase category) defaultCategory
      in case firstIncluded categoryLower categories of
           Some url \<Rightarrow> url
         | None \<Rightarrow> otherImage)"

text \<open>
  \<open>foundPlaces\<close> is whatever \<open>JSON.parse\<close> returned, so the arrow function of
  \<open>foundPlaces.map\<close> meets any JSON value.  \<open>place.category\<close> throws on \<open>null\<close>, is the
  property's value on an object that has it, and is \<open>undefined\<close> (\<open>None\<close>) otherwise.
  The objects \<open>JSON.parse\<close> returns have no property twice, so \<open>map_of\<close> reads the
  property.
\<close>

definition readCategory :: "json \<Rightarrow> exn + json option" where
  "readCategory place =
     (case place of
        JNull \<Rightarrow> Inl (TypeError ''Cannot read properties of null (reading category)'')
      | JObject props \<Rightarrow> Inr (map_of props ''category'')
      | _ \<Rightarrow> Inr None)"

text \<open>
  The call \<open>getCategoryImage(place.category)\<close> on a run-time value: \<open>undefined\<close> and
  \<open>null\<close> stop the optional chain, a string is lowered, anything else has no
  \<open>toLowerCase\<close> and the call throws.
\<close>

definition callGetCategoryImage :: "json option \<Rightarrow> exn + string" where
  "callGetCategoryImage category =
     (case category of
        None \<Rightarrow> Inr (getCategoryImage None)
      | Some JNull \<Rightarrow> Inr (getCategoryImage None)
      | Some (JString s) \<Rightarrow> Inr (getCategoryImage (Some s))
      | Some _ \<Rightarrow> Inl (TypeError ''category.toLowerCase is not a function''))"

text \<open>Decimal notation of an array index, the property name of an element.\<close>

fun showNat :: "nat \<Rightarrow> string" where
  "showNat n =
     (if n < 10 then [char_of (48 + n)]
      else showNat (n div 10) @ [char_of (48 + n mod 10)])"

text \<open>The own enumerable properties \<open>...place\<close> copies.\<close>

definition ownProperties :: "json \<Rightarrow> (string \<times> json) list" where
  "ownProperties place =
     (case place of
        JObject props \<Rightarrow> props
      | JArray elems \<Rightarrow> zip (map showNat [0..<length elems]) elems
      | JString s \<Rightarrow> zip (map showNat [0..<length s]) (map (\<lambda>c. JString [c]) s)
      | _ \<Rightarrow> [])"

text \<open>\<open>place => ({...place, imageUrl: getCategoryImage(place.category)})\<close>\<close>

definition decoratePlace :: "json \<Rightarrow> exn + json" where
  "decoratePlace place =
     (case readCategory place of
        Inl e \<Rightarrow> Inl e
      | Inr category \<Rightarrow>
          (case callGetCategoryImage category of
             Inl e \<Rightarrow> Inl e
           | Inr url \<Rightarrow>
               Inr (JObject (AList.update ''imageUrl'' (JString url) (ownProperties place)))))"

text \<open>\<open>Array.prototype.map\<close> with a callback that may throw: the first exception ends it.\<close>

fun mapE :: "('a \<Rightarrow> exn + 'b) \<Rightarrow> 'a list \<Rightarrow> exn + 'b list" where
  "mapE f [] = Inr []"
| "mapE f (x # xs) =
     (case f x of
        Inl e \<Rightarrow> Inl e
      | Inr y \<Rightarrow> (case mapE f xs of Inl e \<Rightarrow> Inl e | Inr ys \<Rightarrow> Inr (y # ys)))"

text \<open>\<open>foundPlaces.map(...)\<close>: only an array has \<open>map\<close>.\<close>

definition decoratePlaces :: "json \<Rightarrow> exn + json list" where
  "decoratePlaces foundPlaces =
     (case foundPlaces of
        JArray elems \<Rightarrow> mapE decoratePlace elems
      | _ \<Rightarrow> Inl (TypeError ''foundPlaces.map is not a function''))"

text \<open>The state of the component that the search touches.  \<open>audioSourceRef\<close> and
  \<open>audioBufferRef\<close> hold handles; \<open>narrationStopped\<close> lists the narration sources on which
  \<open>stop()\<close> and \<open>disconnect()\<close> have been called.\<close>

record discoverView =
  isLoading :: bool
  status :: string
  discoverError :: "string option"
  places :: "json list option"
  sources :: "GroundingSource list option"
  selectedPlace :: "json option"
  isPlaying :: bool
  audioSourceRef :: "nat option"
  audioBufferRef :: "nat option"
  narrationStopped :: "nat list"

definition cleanupAudio :: "discoverView \<Rightarrow> discoverView" where
  "cleanupAudio v =
     (let v1 = (case audioSourceRef v of
                  None \<Rightarrow> v
                | Some src \<Rightarrow> v\<lparr>narrationStopped := narrationStopped v @ [src], audioSourceRef := None\<rparr>)
      in v1\<lparr>audioBufferRef := None, isPlaying := False\<rparr>)"

text \<open>The \<open>catch\<close> block: \<open>setError(err.message || 'Failed to get information. Please try again.')\<close>\<close>

definition catchFetch :: "exn \<Rightarrow> discoverView \<Rightarrow> discoverView" where
  "catchFetch err v =
     v\<lparr>discoverError := Some (orElse (Some (message err)) ''Failed to get information. Please try again.'')\<rparr>"

text \<open>
  \<open>handleFetchPlaces\<close>, given how \<open>await getNearbyPlaces(locationQuery)\<close> ended: with an
  exception or with \<open>{places, sources}\<close>.
\<close>

definition handleFetchPlaces ::
  "exn + (json \<times> GroundingSource list) \<Rightarrow> discoverView \<Rightarrow> discoverView" where
  "handleFetchPlaces awaited v =
     (let v1 = cleanupAudio
                 (v\<lparr>isLoading := True, discoverError := None, places := None,
                    selectedPlace := None, sources := None\<rparr>);
          v2 = v1\<lparr>status := ''Finding interesting places...''\<rparr>;
          v3 = (case awaited of
                  Inl err \<Rightarrow> catchFetch err v2
                | Inr (foundPlaces, foundSources) \<Rightarrow>
                    (let v4 = v2\<lparr>sources := Some foundSources, status := ''Preparing place cards...''\<rparr>
                     in case decoratePlaces foundPlaces of
                          Inl err \<Rightarrow> catchFetch err v4
                        | Inr placesWithImages \<Rightarrow>
                            v4\<lparr>places := Some placesWithImages, status := ''Done!''\<rparr>))
      in v3\<lparr>isLoading := False, status := []\<rparr>)"

text \<open>A search whose request the service answered with \<open>resp\<close>.\<close>

definition discover :: "(string \<Rightarrow> exn + json) \<Rightarrow> response \<Rightarrow> discoverView \<Rightarrow> discoverView" where
  "discover parse resp v = handleFetchPlaces (getNearbyPlaces parse resp) v"

section \<open>utils/audioUtils.ts\<close>

text \<open>
  The file is imported by both components and is not among the sources, so its functions
  are modelled from section 4.1 of the specification.  A byte is an 8-bit word, a PCM sample
  a 16-bit word read as two's complement.  Samples are real numbers: every 32-bit float is
  one, and so are the products and quotients by 32768 taken here.
\<close>

type_synonym byte = "8 word"

text \<open>
  An \<open>AudioBuffer\<close>: its sample rate, its length in sample frames and the samples of each
  channel.  \<open>duration\<close> is the property of that name, the length over the rate.
\<close>

record audioBuffer =
  sampleRate :: nat
  frameCount :: nat
  channelData :: "real list list"

definition duration :: "audioBuffer \<Rightarrow> real" where
  "duration b = real (frameCount b) / real (sampleRate b)"

text \<open>Modelled from the spec: \<open>createAudioBlob\<close> is missing; this is its step
  "clamping each sample to [-1, 1] before quantizing".\<close>

definition clampSample :: "real \<Rightarrow> real" where
  "clampSample s = max (- 1) (min 1 s)"

text \<open>Modelled from the spec: \<open>createAudioBlob\<close> is missing; a 16-bit sample holds
  -32768..32767, and a value outside is clamped, not wrapped.\<close>

definition clampInt16 :: "int \<Rightarrow> int" where
  "clampInt16 k = max (- 32768) (min 32767 k)"

text \<open>Modelled from the spec: \<open>createAudioBlob\<close> is missing; quantizing with the step
  1/32768 that \<open>decodeAudioData\<close> divides by.  The spec does not say how the scaled sample
  is rounded to an integer: \<open>rnd\<close> is that rounding.\<close>

definition quantizeSample :: "(real \<Rightarrow> int) \<Rightarrow> real \<Rightarrow> int" where
  "quantizeSample rnd s = clampInt16 (rnd (clampSample s * 32768))"

text \<open>Modelled from the spec: \<open>createAudioBlob\<close> is missing; "16-bit little-endian PCM":
  the low byte first.\<close>

definition int16Bytes :: "16 word \<Rightarrow> byte list" where
  "int16Bytes w = [ucast w, ucast (drop_bit 8 w)]"

text \<open>Modelled from the spec: \<open>createAudioBlob\<close> is missing; the byte buffer of a
  sample sequence.\<close>

definition pcmBytes :: "(real \<Rightarrow> int) \<Rightarrow> real list \<Rightarrow> byte list" where
  "pcmBytes rnd samples = concat (map (\<lambda>s. int16Bytes (word_of_int (quantizeSample rnd s))) samples)"

record audioBlob =
  blobBase64 :: string
  mimeType :: string

text \<open>Modelled from the spec: \<open>createAudioBlob\<close> (imported as \<open>createBlob\<close>) is missing;
  it "base64-encodes the byte buffer and tags it with a fixed sample rate (16 kHz) and mono
  channel count".  \<open>encode\<close> is the missing base64 encoder of the same file.\<close>

definition createAudioBlob :: "(byte list \<Rightarrow> string) \<Rightarrow> (real \<Rightarrow> int) \<Rightarrow> real list \<Rightarrow> audioBlob" where
  "createAudioBlob encode rnd samples =
     \<lparr>blobBase64 = encode (pcmBytes rnd samples), mimeType = ''audio/pcm;rate=16000''\<rparr>"

text \<open>Modelled from the spec: \<open>decodeAudioData\<close> is missing; it "interprets raw bytes as
  16-bit little-endian PCM", and a last byte without its pair is dropped.\<close>

fun bytesInt16 :: "byte list \<Rightarrow> 16 word list" where
  "bytesInt16 (lo # hi # rest) = (ucast lo OR push_bit 8 (ucast hi)) # bytesInt16 rest"
| "bytesInt16 rest = []"

text \<open>Modelled from the spec: \<open>decodeAudioData\<close> is missing; it "normalizes each sample
  to floating-point [-1, 1] by dividing by 32768".\<close>

definition normalizeSample :: "16 word \<Rightarrow> real" where
  "normalizeSample w = real_of_int (sint w) / 32768"

text \<open>Modelled from the spec: \<open>decodeAudioData\<close> is missing; it "de-interleaves across
  the given channel count into a buffer structured for the target playback rate",
  "truncating the remainder" of a length that is no multiple of the frame size.  A buffer
  cannot have zero channels: creating it throws.\<close>

definition decodeAudioData :: "byte list \<Rightarrow> nat \<Rightarrow> nat \<Rightarrow> exn + audioBuffer" where
  "decodeAudioData bytes targetRate numChannels =
     (if numChannels = 0 then Inl (DOMException ''NotSupportedError'')
      else (let int16s = bytesInt16 bytes;
                frames = length int16s div numChannels
            in Inr \<lparr>sampleRate = targetRate, frameCount = frames,
                    channelData =
                      map (\<lambda>channel.
                             map (\<lambda>i. normalizeSample (int16s ! (i * numChannels + channel)))
                               [0..<frames])
                        [0..<numChannels]\<rparr>))"

text \<open>Modelled from the spec: \<open>createAudioBlob\<close>, \<open>decode\<close> and \<open>decodeAudioData\<close> are
  missing; this is their composition, "\<open>createAudioBlob\<close> \<open>\<circ>\<close> \<open>decodeAudioData\<close>" of section 8:
  the blob's base64 text is turned back into bytes by \<open>decode\<close>, the missing base64 decoder
  (which "fails only on malformed input"), and the bytes are decoded as one channel.\<close>

definition roundTrip ::
  "(byte list \<Rightarrow> string) \<Rightarrow> (string \<Rightarrow> exn + byte list) \<Rightarrow> (real \<Rightarrow> int) \<Rightarrow> real list
     \<Rightarrow> exn + audioBuffer" where
  "roundTrip encode decode rnd samples =
     (case decode (blobBase64 (createAudioBlob encode rnd samples)) of
        Inl e \<Rightarrow> Inl e
      | Inr bytes \<Rightarrow> decodeAudioData bytes 16000 1)"

section \<open>components/ConversationView.tsx\<close>

subsection \<open>Data\<close>

datatype speaker = User | Model

record Transcript =
  transcriptId :: int
  transcriptSpeaker :: speaker
  transcriptText :: string

text \<open>
  A \<open>LiveServerMessage\<close>, as far as \<open>onmessage\<close> reads it.  Every property is optional;
  \<open>turnComplete\<close> and \<open>interrupted\<close> are read for truthiness only.
\<close>

record transcription =
  transcriptionText :: "string option"

record inlineBlob =
  blobData :: "string option"

record part =
  inlineData :: "inlineBlob option"

record content =
  parts :: "part list option"

record serverContent =
  inputTranscription :: "transcription option"
  outputTranscription :: "transcription option"
  turnComplete :: bool
  modelTurn :: "content option"
  interrupted :: bool

record liveServerMessage =
  serverContentOf :: "serverContent option"

text \<open>A segment handed to the output timeline by \<open>source.start(when)\<close>: the source node,
  the time it starts at and the duration of its buffer.\<close>

record segment =
  segSource :: nat
  segStart :: real
  segDuration :: real

text \<open>
  The component's state (\<open>useState\<close>), its refs (\<open>useRef\<close>), and the browser and service
  objects the refs point to.  Objects are handles (natural numbers); \<open>nextHandle\<close> is
  the next unused one.  A media stream is the list of its tracks.
  \<^item> \<open>openContexts\<close>: the audio contexts whose \<open>state\<close> is not \<open>'closed'\<close>;
  \<^item> \<open>liveTracks\<close>: the media tracks that have not been stopped;
  \<^item> \<open>connectedNodes\<close>: the audio nodes with an outgoing connection;
  \<^item> \<open>liveSessions\<close>: the live sessions asked for by \<open>startLiveConversation\<close> and neither
    closed nor failed;
  \<^item> \<open>scheduled\<close>: the calls of \<open>source.start(when)\<close>, in order;
  \<^item> \<open>stoppedSources\<close>: the sources on which \<open>stop()\<close> has been called.
\<close>

record conversationView =
  isSessionActive :: bool
  transcripts :: "Transcript list"
  error :: "string option"
  sessionPromiseRef :: "nat option"
  mediaStreamRef :: "nat list option"
  audioContextRef :: "nat option"
  scriptProcessorRef :: "nat option"
  mediaStreamSourceRef :: "nat option"
  outputAudioContextRef :: "nat option"
  outputNodeRef :: "nat option"
  sourcesRef :: "nat list"
  nextStartTimeRef :: real
  currentInputTranscriptionRef :: string
  currentOutputTranscriptionRef :: string
  openContexts :: "nat set"
  liveTracks :: "nat set"
  connectedNodes :: "nat set"
  liveSessions :: "nat set"
  scheduled :: "segment list"
  stoppedSources :: "nat set"
  nextHandle :: nat

text \<open>The component as mounted: nothing held, nothing allocated.\<close>

definition initialView :: conversationView where
  "initialView =
     \<lparr>isSessionActive = False, transcripts = [], error = None, sessionPromiseRef = None,
      mediaStreamRef = None, audioContextRef = None, scriptProcessorRef = None,
      mediaStreamSourceRef = None, outputAudioContextRef = None, outputNodeRef = None,
      sourcesRef = [], nextStartTimeRef = 0, currentInputTranscriptionRef = [],
      currentOutputTranscriptionRef = [], openContexts = {}, liveTracks = {},
      connectedNodes = {}, liveSessions = {}, scheduled = [], stoppedSources = {},
      nextHandle = 0\<rparr>"

text \<open>
  A callback either returns, leaving a state, or throws, leaving the exception and the
  state reached when it was thrown.
\<close>

type_synonym outcome = "(exn \<times> conversationView) + conversationView"

definition andThen :: "outcome \<Rightarrow> (conversationView \<Rightarrow> outcome) \<Rightarrow> outcome" where
  "andThen r f = (case r of Inl x \<Rightarrow> Inl x | Inr st \<Rightarrow> f st)"

text \<open>The state a callback leaves, whether it returned or threw.\<close>

fun stateOf :: "outcome \<Rightarrow> conversationView" where
  "stateOf (Inl (e, st)) = st"
| "stateOf (Inr st) = st"

text \<open>\<open>xs.forEach(f)\<close> with a callback that may throw.\<close>

fun forEachE :: "('a \<Rightarrow> conversationView \<Rightarrow> outcome) \<Rightarrow> 'a list \<Rightarrow> conversationView \<Rightarrow> outcome" where
  "forEachE f [] st = Inr st"
| "forEachE f (x # xs) st = andThen (f x st) (forEachE f xs)"

text \<open>\<open>Set.prototype.add\<close> on a set kept in insertion order.\<close>

definition setAdd :: "nat \<Rightarrow> nat list \<Rightarrow> nat list" where
  "setAdd x xs = (if x \<in> set xs then xs else xs @ [x])"

subsection \<open>The browser's audio interface\<close>

text \<open>
  \<open>AudioBufferSourceNode.stop()\<close> throws \<open>InvalidStateError\<close> on a node that was never
  started, and is harmless on one that already stopped.
\<close>

definition stopSource :: "nat \<Rightarrow> conversationView \<Rightarrow> outcome" where
  "stopSource src st =
     (if src \<in> segSource ` set (scheduled st)
      then Inr (st\<lparr>stoppedSources := insert src (stoppedSources st)\<rparr>)
      else Inl (DOMException ''InvalidStateError'', st))"

definition disconnectNode :: "nat \<Rightarrow> conversationView \<Rightarrow> conversationView" where
  "disconnectNode n st = st\<lparr>connectedNodes := connectedNodes st - {n}\<rparr>"

text \<open>\<open>AudioContext.close()\<close>; the promise it returns is dropped by the caller.\<close>

definition closeContext :: "nat \<Rightarrow> conversationView \<Rightarrow> conversationView" where
  "closeContext c st = st\<lparr>openContexts := openContexts st - {c}\<rparr>"

definition stopTrack :: "nat \<Rightarrow> conversationView \<Rightarrow> conversationView" where
  "stopTrack t st = st\<lparr>liveTracks := liveTracks st - {t}\<rparr>"

subsection \<open>cleanup and stopConversation\<close>

definition cleanup :: "conversationView \<Rightarrow> outcome" where
  "cleanup st =
     andThen (forEachE stopSource (sourcesRef st) st) (\<lambda>st0.
       let st1 = st0\<lparr>sourcesRef := []\<rparr>;
           st2 = (case scriptProcessorRef st1 of
                    None \<Rightarrow> st1
                  | Some n \<Rightarrow> (disconnectNode n st1)\<lparr>scriptProcessorRef := None\<rparr>);
           st3 = (case mediaStreamSourceRef st2 of
                    None \<Rightarrow> st2
                  | Some n \<Rightarrow> (disconnectNode n st2)\<lparr>mediaStreamSourceRef := None\<rparr>);
           st4 = (case audioContextRef st3 of
                    None \<Rightarrow> st3
                  | Some c \<Rightarrow>
                      (if c \<in> openContexts st3
                       then (closeContext c st3)\<lparr>audioContextRef := None\<rparr>
                       else st3));
           st5 = (case outputAudioContextRef st4 of
                    None \<Rightarrow> st4
                  | Some c \<Rightarrow>
                      (if c \<in> openContexts st4
                       then (closeContext c st4)\<lparr>outputAudioContextRef := None\<rparr>
                       else st4));
           st6 = (case mediaStreamRef st5 of
                    None \<Rightarrow> st5
                  | Some tracks \<Rightarrow> (fold stopTrack tracks st5)\<lparr>mediaStreamRef := None\<rparr>)
       in Inr st6)"

text \<open>
  What \<open>stopConversation\<close> meets when the session promise settles and at \<open>session.close()\<close>:
  the promise is fulfilled or rejected (\<open>sessionRejects\<close>), and \<open>close\<close> returns or throws
  (\<open>closeThrows\<close>).
\<close>

record stopEnv =
  sessionRejects :: "exn option"
  closeThrows :: "exn option"

text \<open>The body of the \<open>try\<close> after the \<open>await\<close>: a session whose connection failed was never
  live, one that is closed is live no longer.\<close>

definition closeSession :: "stopEnv \<Rightarrow> nat \<Rightarrow> conversationView \<Rightarrow> outcome" where
  "closeSession env p st =
     (case sessionRejects env of
        Some e \<Rightarrow> Inl (e, st\<lparr>liveSessions := liveSessions st - {p}\<rparr>)
      | None \<Rightarrow>
          (case closeThrows env of
             Some e \<Rightarrow> Inl (e, st)
           | None \<Rightarrow> Inr (st\<lparr>liveSessions := liveSessions st - {p}\<rparr>)))"

text \<open>
  \<open>stopConversation\<close> is an \<open>async\<close> function.  It runs in its caller's turn up to
  \<open>await sessionPromiseRef.current\<close> and no further until that promise has settled; the
  callbacks that arrive in the meantime run first.  So the call has two halves.  The first
  marks the session inactive; without a session promise there is no \<open>await\<close> and \<open>cleanup\<close>
  runs at once (\<open>Finished\<close>), otherwise the call waits for the promise it has read
  (\<open>Awaiting\<close>).  While the promise is pending the call stays there: it has neither
  returned nor thrown, and \<open>cleanup\<close> has not run.
\<close>

datatype stopStage = Finished outcome | Awaiting nat conversationView

definition stopConversationBegin :: "conversationView \<Rightarrow> stopStage" where
  "stopConversationBegin st =
     (let st1 = st\<lparr>isSessionActive := False\<rparr>
      in case sessionPromiseRef st1 of
           None \<Rightarrow> Finished (cleanup st1)
         | Some p \<Rightarrow> Awaiting p st1)"

text \<open>The second half, on the state found when the promise \<open>p\<close> has settled: \<open>try\<close>,
  \<open>catch\<close>, \<open>finally\<close>, then \<open>cleanup\<close>.\<close>

definition stopConversationResume :: "stopEnv \<Rightarrow> nat \<Rightarrow> conversationView \<Rightarrow> outcome" where
  "stopConversationResume env p st =
     (let st2 = (case closeSession env p st of
                   Inl (e, st') \<Rightarrow> st'\<lparr>sessionPromiseRef := None\<rparr>
                 | Inr st' \<Rightarrow> st'\<lparr>sessionPromiseRef := None\<rparr>)
      in cleanup st2)"

text \<open>The state the synchronous half of a stop leaves.\<close>

fun begun :: "stopStage \<Rightarrow> conversationView" where
  "begun (Finished (Inl (e, st))) = st"
| "begun (Finished (Inr st)) = st"
| "begun (Awaiting p st) = st"

subsection \<open>startConversation and its callbacks\<close>

text \<open>
  What \<open>startConversation\<close> meets: how \<open>getUserMedia\<close> ends (an exception or a stream,
  whose tracks are live from then on) and whether either \<open>new AudioContext\<close> throws.
\<close>

record startEnv =
  getUserMedia :: "exn + nat list"
  newInputContext :: "exn option"
  newOutputContext :: "exn option"

text \<open>The body of the \<open>try\<close>.\<close>

definition startBody :: "startEnv \<Rightarrow> conversationView \<Rightarrow> outcome" where
  "startBody env st =
     (case getUserMedia env of
        Inl e \<Rightarrow> Inl (e, st)
      | Inr stream \<Rightarrow>
          (let st1 = st\<lparr>liveTracks := liveTracks st \<union> set stream, mediaStreamRef := Some stream\<rparr>
           in case newInputContext env of
                Some e \<Rightarrow> Inl (e, st1)
              | None \<Rightarrow>
                  (let c1 = nextHandle st1;
                       st2 = st1\<lparr>nextHandle := c1 + 1, openContexts := insert c1 (openContexts st1),
                                audioContextRef := Some c1\<rparr>
                   in case newOutputContext env of
                        Some e \<Rightarrow> Inl (e, st2)
                      | None \<Rightarrow>
                          (let c2 = nextHandle st2;
                               st3 = st2\<lparr>nextHandle := c2 + 1,
                                        openContexts := insert c2 (openContexts st2),
                                        outputAudioContextRef := Some c2\<rparr>;
                               g = nextHandle st3;
                               st4 = st3\<lparr>nextHandle := g + 1,
                                        connectedNodes := insert g (connectedNodes st3),
                                        outputNodeRef := Some g\<rparr>;
                               st5 = st4\<lparr>nextStartTimeRef := 0, sourcesRef := []\<rparr>;
                               p = nextHandle st5
                           in Inr (st5\<lparr>nextHandle := p + 1,
                                       liveSessions := insert p (liveSessions st5),
                                       sessionPromiseRef := Some p\<rparr>)))))"

definition startConversation :: "startEnv \<Rightarrow> conversationView \<Rightarrow> conversationView" where
  "startConversation env st =
     (let st0 = st\<lparr>error := None, transcripts := [], currentInputTranscriptionRef := [],
                   currentOutputTranscriptionRef := []\<rparr>
      in case startBody env st0 of
           Inl (e, st') \<Rightarrow>
             st'\<lparr>error := Some ''Failed to start conversation. Please check microphone permissions.''\<rparr>
         | Inr st' \<Rightarrow> st')"

text \<open>\<open>onopen\<close>; \<open>audioContextRef.current!\<close> is read three times, each a \<open>TypeError\<close> when
  the ref is \<open>null\<close>.\<close>

definition onopen :: "conversationView \<Rightarrow> outcome" where
  "onopen st =
     (let st1 = st\<lparr>isSessionActive := True\<rparr>
      in case audioContextRef st1 of
           None \<Rightarrow> Inl (TypeError ''Cannot read properties of null (reading createMediaStreamSource)'', st1)
         | Some c \<Rightarrow>
             (let src = nextHandle st1;
                  st2 = st1\<lparr>nextHandle := src + 1, mediaStreamSourceRef := Some src\<rparr>;
                  sp = nextHandle st2;
                  st3 = st2\<lparr>nextHandle := sp + 1, scriptProcessorRef := Some sp\<rparr>;
                  st4 = st3\<lparr>connectedNodes := insert src (connectedNodes st3)\<rparr>
              in Inr (st4\<lparr>connectedNodes := insert sp (connectedNodes st4)\<rparr>)))"

text \<open>
  What \<open>onmessage\<close> meets: the reading of \<open>outputAudioContext.currentTime\<close>, the values
  of the two calls of \<open>Date.now()\<close>, and \<open>decodeAudioData(decode(base64Audio), ..., 24000, 1)\<close>
  of \<open>utils/audioUtils\<close>, which yields a buffer or throws.
\<close>

record messageEnv =
  currentTime :: real
  dateNow1 :: int
  dateNow2 :: int
  decodeAudio :: "string \<Rightarrow> exn + audioBuffer"

text \<open>\<open>ref.current += transcription.text\<close>: a missing text is appended as the string
  \<open>undefined\<close>.\<close>

definition appendedText :: "transcription \<Rightarrow> string" where
  "appendedText t = (case transcriptionText t of None \<Rightarrow> ''undefined'' | Some s \<Rightarrow> s)"

definition appendTranscriptions :: "liveServerMessage \<Rightarrow> conversationView \<Rightarrow> conversationView" where
  "appendTranscriptions msg st =
     (let st1 = (case Option.bind (serverContentOf msg) inputTranscription of
                   None \<Rightarrow> st
                 | Some t \<Rightarrow>
                     st\<lparr>currentInputTranscriptionRef :=
                          currentInputTranscriptionRef st @ appendedText t\<rparr>)
      in case Option.bind (serverContentOf msg) outputTranscription of
           None \<Rightarrow> st1
         | Some t \<Rightarrow>
             st1\<lparr>currentOutputTranscriptionRef :=
                   currentOutputTranscriptionRef st1 @ appendedText t\<rparr>)"

text \<open>The entries the \<open>turnComplete\<close> branch appends.\<close>

definition turnEntries :: "messageEnv \<Rightarrow> string \<Rightarrow> string \<Rightarrow> Transcript list" where
  "turnEntries env input output =
     (if input \<noteq> []
      then [\<lparr>transcriptId = dateNow1 env, transcriptSpeaker = User, transcriptText = input\<rparr>]
      else [])
     @
     (if output \<noteq> []
      then [\<lparr>transcriptId = dateNow2 env + 1, transcriptSpeaker = Model, transcriptText = output\<rparr>]
      else [])"

definition isTurnComplete :: "liveServerMessage \<Rightarrow> bool" where
  "isTurnComplete msg = (case serverContentOf msg of None \<Rightarrow> False | Some sc \<Rightarrow> turnComplete sc)"

definition flushTurn :: "messageEnv \<Rightarrow> liveServerMessage \<Rightarrow> conversationView \<Rightarrow> conversationView" where
  "flushTurn env msg st =
     (if isTurnComplete msg
      then (let input = currentInputTranscriptionRef st;
                output = currentOutputTranscriptionRef st
            in st\<lparr>transcripts := transcripts st @ turnEntries env input output,
                  currentInputTranscriptionRef := [],
                  currentOutputTranscriptionRef := []\<rparr>)
      else st)"

text \<open>
  \<open>message.serverContent?.modelTurn?.parts[0]?.inlineData?.data\<close>: there is no \<open>?.\<close>
  between \<open>parts\<close> and \<open>[0]\<close>, so a model turn without \<open>parts\<close> throws.
\<close>

definition base64Audio :: "liveServerMessage \<Rightarrow> exn + string option" where
  "base64Audio msg =
     (case Option.bind (serverContentOf msg) modelTurn of
        None \<Rightarrow> Inr None
      | Some turn \<Rightarrow>
          (case parts turn of
             None \<Rightarrow> Inl (TypeError ''Cannot read properties of undefined (reading 0)'')
           | Some [] \<Rightarrow> Inr None
           | Some (p # ps) \<Rightarrow> Inr (Option.bind (inlineData p) blobData)))"

definition scheduleAudio :: "messageEnv \<Rightarrow> liveServerMessage \<Rightarrow> conversationView \<Rightarrow> outcome" where
  "scheduleAudio env msg st =
     (case base64Audio msg of
        Inl e \<Rightarrow> Inl (e, st)
      | Inr audio \<Rightarrow>
          (if truthy audio \<and> outputAudioContextRef st \<noteq> None \<and> outputNodeRef st \<noteq> None
           then (let st1 = st\<lparr>nextStartTimeRef := max (nextStartTimeRef st) (currentTime env)\<rparr>
                 in case decodeAudio env (the audio) of
                      Inl e \<Rightarrow> Inl (e, st1)
                    | Inr buffer \<Rightarrow>
                        (let src = nextHandle st1;
                             st2 = st1\<lparr>nextHandle := src + 1,
                                      connectedNodes := insert src (connectedNodes st1)\<rparr>;
                             st3 = st2\<lparr>scheduled := scheduled st2 @
                                        [\<lparr>segSource = src, segStart = nextStartTimeRef st2,
                                          segDuration = duration buffer\<rparr>]\<rparr>;
                             st4 = st3\<lparr>nextStartTimeRef := nextStartTimeRef st3 + duration buffer\<rparr>
                         in Inr (st4\<lparr>sourcesRef := setAdd src (sourcesRef st4)\<rparr>)))
           else Inr st))"

definition isInterrupted :: "liveServerMessage \<Rightarrow> bool" where
  "isInterrupted msg = (case serverContentOf msg of None \<Rightarrow> False | Some sc \<Rightarrow> interrupted sc)"

definition handleInterrupted :: "liveServerMessage \<Rightarrow> conversationView \<Rightarrow> outcome" where
  "handleInterrupted msg st =
     (if isInterrupted msg
      then andThen (forEachE stopSource (sourcesRef st) st)
             (\<lambda>st1. Inr (st1\<lparr>sourcesRef := [], nextStartTimeRef := 0\<rparr>))
      else Inr st)"

definition onmessage :: "messageEnv \<Rightarrow> liveServerMessage \<Rightarrow> conversationView \<Rightarrow> outcome" where
  "onmessage env msg st =
     andThen (scheduleAudio env msg (flushTurn env msg (appendTranscriptions msg st)))
       (handleInterrupted msg)"

text \<open>The listener of a source's \<open>ended\<close> event.\<close>

definition sourceEnded :: "nat \<Rightarrow> conversationView \<Rightarrow> conversationView" where
  "sourceEnded src st = st\<lparr>sourcesRef := removeAll src (sourcesRef st)\<rparr>"

definition conversationErrorMessage :: string where
  "conversationErrorMessage = ''An error occurred during the conversation.''"

subsection \<open>The header button\<close>

text \<open>
  The render shows one button: \<open>Start\<close>, whose \<open>onClick\<close> is \<open>startConversation\<close>, when
  \<open>isSessionActive\<close> is false, and \<open>Stop\<close>, whose \<open>onClick\<close> is \<open>stopConversation\<close>,
  otherwise.
\<close>

datatype button = StartButton | StopButton

definition renderedButton :: "conversationView \<Rightarrow> button" where
  "renderedButton st = (if \<not> isSessionActive st then StartButton else StopButton)"

subsection \<open>What runs while a stop waits\<close>

text \<open>
  The callbacks that can run between the two halves of a \<open>stopConversation\<close>: the session
  opens, a message arrives, a source ends, the header button is clicked, a transport error
  or a remote close arrives (both begin a stop of their own), or another stop that was
  waiting for the promise \<open>p\<close> goes on.  \<open>deliver\<close> gives the state each leaves, whether it
  returned or threw.
\<close>

datatype event =
    Opened
  | Received messageEnv liveServerMessage
  | Ended nat
  | Clicked startEnv
  | Errored exn
  | Closed
  | Resumed stopEnv nat

fun deliver :: "event \<Rightarrow> conversationView \<Rightarrow> conversationView" where
  "deliver Opened st = stateOf (onopen st)"
| "deliver (Received env msg) st = stateOf (onmessage env msg st)"
| "deliver (Ended src) st = sourceEnded src st"
| "deliver (Clicked senv) st =
     (case renderedButton st of
        StartButton \<Rightarrow> startConversation senv st
      | StopButton \<Rightarrow> begun (stopConversationBegin st))"
| "deliver (Errored e) st =
     begun (stopConversationBegin (st\<lparr>error := Some conversationErrorMessage\<rparr>))"
| "deliver Closed st = begun (stopConversationBegin st)"
| "deliver (Resumed env p) st = stateOf (stopConversationResume env p st)"

text \<open>
  A whole call of \<open>stopConversation\<close> whose promise settles: \<open>during\<close> lists what runs while
  it waits.  When the promise has settled before the call (the session is open) nothing
  runs in between, and \<open>during\<close> is empty.
\<close>

definition stopConversation :: "stopEnv \<Rightarrow> event list \<Rightarrow> conversationView \<Rightarrow> outcome" where
  "stopConversation env during st =
     (case stopConversationBegin st of
        Finished r \<Rightarrow> r
      | Awaiting p st1 \<Rightarrow> stopConversationResume env p (fold deliver during st1))"



text \<open>A click on the button the render shows.\<close>

definition clickButton :: "startEnv \<Rightarrow> stopEnv \<Rightarrow> event list \<Rightarrow> conversationView \<Rightarrow> outcome" where
  "clickButton senv env during st =
     (case renderedButton st of
        StartButton \<Rightarrow> Inr (startConversation senv st)
      | StopButton \<Rightarrow> stopConversation env during st)"

section \<open>Vocabulary of the properties\<close>

text \<open>A string-valued property of a parsed value, when it is an object that has one.\<close>

definition stringProp :: "json \<Rightarrow> string \<Rightarrow> string option" where
  "stringProp v key =
     (case v of
        JObject props \<Rightarrow> (case map_of props key of Some (JString s) \<Rightarrow> Some s | _ \<Rightarrow> None)
      | _ \<Rightarrow> None)"

text \<open>A place record: an object with the four string fields the prompt asks for.\<close>

definition isPlaceRecord :: "json \<Rightarrow> bool" where
  "isPlaceRecord v =
     (stringProp v ''name'' \<noteq> None \<and> stringProp v ''oneLiner'' \<noteq> None \<and>
      stringProp v ''description'' \<noteq> None \<and> stringProp v ''category'' \<noteq> None)"

text \<open>The five terms of the illustration vocabulary, and what it is for a category to
  match one: the lowered category contains the term.\<close>

definition vocabulary :: "string list" where
  "vocabulary = [''nature'', ''architecture'', ''history'', ''food'', ''art'']"

definition matchesTerm :: "string \<Rightarrow> string \<Rightarrow> bool" where
  "matchesTerm category term = includes_str (toLowerCase category) term"

text \<open>
  The examples need a value for the parameter \<open>parse\<close>: \<open>exampleParse\<close> gives what
  \<open>JSON.parse\<close> gives on the three texts the examples use, and a \<open>SyntaxError\<close> on the
  malformed text they use.  The theorems themselves hold for every \<open>parse\<close>.
\<close>

definition examplePlacesJson :: string where
  \<open>examplePlacesJson = ''[{"name":"Mural Lane","oneLiner":"Walls that talk.","description":"An alley of murals.","category":"Street Art"},{"name":"Old Mill","oneLiner":"Still turning.","description":"A water mill.","category":"Industrial"}]''\<close>

definition examplePlaceList :: "json list" where
  "examplePlaceList =
     [JObject [(''name'', JString ''Mural Lane''), (''oneLiner'', JString ''Walls that talk.''),
               (''description'', JString ''An alley of murals.''), (''category'', JString ''Street Art'')],
      JObject [(''name'', JString ''Old Mill''), (''oneLiner'', JString ''Still turning.''),
               (''description'', JString ''A water mill.''), (''category'', JString ''Industrial'')]]"

definition examplePlaces :: json where
  "examplePlaces = JArray examplePlaceList"

definition exampleResponse :: response where
  "exampleResponse =
     \<lparr>responseText = Some (''Here you go:'' @ [newline] @ fenceOpen @ examplePlacesJson @ fenceClose),
      groundingChunks = []\<rparr>"

definition exampleParse :: "string \<Rightarrow> exn + json" where
  \<open>exampleParse s =
     (if s = examplePlacesJson then Inr examplePlaces
      else if s = ''{"places":3}'' then Inr (JObject [(''places'', JNumber 3)])
      else if s = ''["a","b"]'' then Inr (JArray [JString ''a'', JString ''b''])
      else Inl (SyntaxError ''Unexpected token''))\<close>

definition exampleView :: discoverView where
  "exampleView =
     \<lparr>isLoading = False, status = [], discoverError = None, places = None, sources = None,
      selectedPlace = None, isPlaying = False, audioSourceRef = None, audioBufferRef = None,
      narrationStopped = []\<rparr>"

text \<open>The text contains a fenced block: an opening marker and, after it, a closing one.\<close>

definition hasFence :: "string \<Rightarrow> bool" where
  "hasFence text = (\<exists>pre content post. text = pre @ fenceOpen @ content @ fenceClose @ post)"

text \<open>Every source in the active-segment set has been started on the timeline.\<close>

definition sourcesStarted :: "conversationView \<Rightarrow> bool" where
  "sourcesStarted st \<longleftrightarrow> set (sourcesRef st) \<subseteq> segSource ` set (scheduled st)"

text \<open>The audio contexts and the media tracks the refs hold.\<close>

definition heldContexts :: "conversationView \<Rightarrow> nat set" where
  "heldContexts st = set_option (audioContextRef st) \<union> set_option (outputAudioContextRef st)"

definition heldTracks :: "conversationView \<Rightarrow> nat set" where
  "heldTracks st = (case mediaStreamRef st of None \<Rightarrow> {} | Some tracks \<Rightarrow> set tracks)"

text \<open>No open context and no live track is out of the refs' reach.\<close>

definition ownsAll :: "conversationView \<Rightarrow> bool" where
  "ownsAll st \<longleftrightarrow> openContexts st \<subseteq> heldContexts st \<and> liveTracks st \<subseteq> heldTracks st"

text \<open>
  The state the stop path aims at: the session marked inactive, no session promise, an
  empty active-segment set, the capture and processing node refs and the stream ref
  \<open>null\<close>, and each context ref \<open>null\<close> or pointing to a closed context.
\<close>

definition released :: "conversationView \<Rightarrow> bool" where
  "released st \<longleftrightarrow>
     \<not> isSessionActive st \<and> sessionPromiseRef st = None \<and> sourcesRef st = [] \<and>
     scriptProcessorRef st = None \<and> mediaStreamSourceRef st = None \<and> mediaStreamRef st = None \<and>
     (case audioContextRef st of None \<Rightarrow> True | Some c \<Rightarrow> c \<notin> openContexts st) \<and>
     (case outputAudioContextRef st of None \<Rightarrow> True | Some c \<Rightarrow> c \<notin> openContexts st)"

text \<open>The audio branch of \<open>onmessage\<close> does not throw on this message: the payload can be
  read, and decodes when there is one.\<close>

definition audioReturns :: "messageEnv \<Rightarrow> liveServerMessage \<Rightarrow> bool" where
  "audioReturns env msg =
     (case base64Audio msg of
        Inl e \<Rightarrow> False
      | Inr audio \<Rightarrow> truthy audio \<longrightarrow> \<not> isl (decodeAudio env (the audio)))"

text \<open>
  Example values for the conversation: a start in which the microphone is granted with one
  track and both contexts are created, a stop in which the session resolves and closes, a
  decoder that knows one payload (three silent frames, the base64 text \<open>AAAAAAAA\<close>), and
  three messages.
\<close>

definition exampleStartEnv :: startEnv where
  "exampleStartEnv = \<lparr>getUserMedia = Inr [0], newInputContext = None, newOutputContext = None\<rparr>"

definition exampleStopEnv :: stopEnv where
  "exampleStopEnv = \<lparr>sessionRejects = None, closeThrows = None\<rparr>"

definition exampleBuffer :: audioBuffer where
  "exampleBuffer = \<lparr>sampleRate = 24000, frameCount = 3, channelData = [[0, 0, 0]]\<rparr>"

definition exampleDecode :: "string \<Rightarrow> exn + audioBuffer" where
  "exampleDecode d =
     (if d = ''AAAAAAAA'' then Inr exampleBuffer else Inl (DOMException ''InvalidCharacterError''))"

definition exampleEnv :: "real \<Rightarrow> messageEnv" where
  "exampleEnv t =
     \<lparr>currentTime = t, dateNow1 = 1700000000000, dateNow2 = 1700000000000,
      decodeAudio = exampleDecode\<rparr>"

definition emptyContent :: serverContent where
  "emptyContent =
     \<lparr>inputTranscription = None, outputTranscription = None, turnComplete = False,
      modelTurn = None, interrupted = False\<rparr>"

definition audioMessage :: "string \<Rightarrow> liveServerMessage" where
  "audioMessage d =
     \<lparr>serverContentOf =
        Some (emptyContent\<lparr>modelTurn :=
                Some \<lparr>parts = Some [\<lparr>inlineData = Some \<lparr>blobData = Some d\<rparr>\<rparr>]\<rparr>\<rparr>)\<rparr>"


definition replyCompleteMessage :: liveServerMessage where
  "replyCompleteMessage =
     \<lparr>serverContentOf =
        Some (emptyContent\<lparr>outputTranscription := Some \<lparr>transcriptionText = Some ''Hello''\<rparr>,
                           turnComplete := True\<rparr>)\<rparr>"

text \<open>The view after \<open>startConversation\<close>, while the session is connecting.\<close>

definition exampleConnecting :: conversationView where
  "exampleConnecting =
     \<lparr>isSessionActive = False, transcripts = [], error = None, sessionPromiseRef = Some 3,
      mediaStreamRef = Some [0], audioContextRef = Some 0, scriptProcessorRef = None,
      mediaStreamSourceRef = None, outputAudioContextRef = Some 1, outputNodeRef = Some 2,
      sourcesRef = [], nextStartTimeRef = 0, currentInputTranscriptionRef = [],
      currentOutputTranscriptionRef = [], openContexts = {0, 1}, liveTracks = {0},
      connectedNodes = {2}, liveSessions = {3}, scheduled = [], stoppedSources = {},
      nextHandle = 4\<rparr>"

text \<open>The view after \<open>onopen\<close>.\<close>

definition exampleActive :: conversationView where
  "exampleActive =
     exampleConnecting\<lparr>isSessionActive := True, mediaStreamSourceRef := Some 4,
       scriptProcessorRef := Some 5, connectedNodes := {2, 4, 5}, nextHandle := 6\<rparr>"

text \<open>The view after two audio messages received at clock 1, both segments still playing.\<close>

definition examplePlaying :: conversationView where
  "examplePlaying =
     exampleActive\<lparr>sourcesRef := [6, 7], nextStartTimeRef := 1 + 1 / 8000 + 1 / 8000,
       scheduled := [\<lparr>segSource = 6, segStart = 1, segDuration = 1 / 8000\<rparr>,
                     \<lparr>segSource = 7, segStart = 1 + 1 / 8000, segDuration = 1 / 8000\<rparr>],
       connectedNodes := {2, 4, 5, 6, 7}, nextHandle := 8\<rparr>"

text \<open>The context and stream refs hold nothing that is open or live, the node refs and
  the session promise ref are \<open>null\<close>, the active-segment set is empty.\<close>

definition refsReleased :: "conversationView \<Rightarrow> bool" where
  "refsReleased st \<longleftrightarrow>
     sessionPromiseRef st = None \<and> sourcesRef st = [] \<and>
     scriptProcessorRef st = None \<and> mediaStreamSourceRef st = None \<and> mediaStreamRef st = None \<and>
     (case audioContextRef st of None \<Rightarrow> True | Some c \<Rightarrow> c \<notin> openContexts st) \<and>
     (case outputAudioContextRef st of None \<Rightarrow> True | Some c \<Rightarrow> c \<notin> openContexts st)"

text \<open>The sessions still live after the second half of a stop that waited for \<open>p\<close>: the
  session is dropped unless \<open>close\<close> threw on it.\<close>

definition sessionsAfterClose :: "stopEnv \<Rightarrow> nat \<Rightarrow> conversationView \<Rightarrow> nat set" where
  "sessionsAfterClose env p st =
     (if sessionRejects env = None \<and> closeThrows env \<noteq> None then liveSessions st
      else liveSessions st - {p})"

text \<open>The same for a whole stop during which nothing runs.\<close>

definition sessionsAfterStop :: "stopEnv \<Rightarrow> conversationView \<Rightarrow> nat set" where
  "sessionsAfterStop env st =
     (case sessionPromiseRef st of
        None \<Rightarrow> liveSessions st
      | Some p \<Rightarrow> sessionsAfterClose env p st)"

text \<open>The state in which the promise of a stop settles: the first half, then what ran.\<close>

definition stateAtResume :: "event list \<Rightarrow> conversationView \<Rightarrow> conversationView" where
  "stateAtResume during st = fold deliver during (st\<lparr>isSessionActive := False\<rparr>)"

text \<open>
  More example values: a start in which creating the output context throws, the view it
  leaves (the microphone granted, the input context open, nothing else set up), and a
  second start, which is granted another track.
\<close>

definition exampleNoOutputEnv :: startEnv where
  "exampleNoOutputEnv =
     \<lparr>getUserMedia = Inr [0], newInputContext = None,
      newOutputContext = Some (DOMException ''NotSupportedError'')\<rparr>"

definition examplePartial :: conversationView where
  "examplePartial =
     initialView\<lparr>error := Some ''Failed to start conversation. Please check microphone permissions.'',
       mediaStreamRef := Some [0], audioContextRef := Some 0, openContexts := {0},
       liveTracks := {0}, nextHandle := 1\<rparr>"

definition exampleRestartEnv :: startEnv where
  "exampleRestartEnv = \<lparr>getUserMedia = Inr [1], newInputContext = None, newOutputContext = None\<rparr>"

text \<open>
  The view after a second click on \<open>Start\<close> while the first session is connecting, after
  both sessions have opened, and after the stop that follows.
\<close>

definition exampleDoubled :: conversationView where
  "exampleDoubled =
     exampleConnecting\<lparr>sessionPromiseRef := Some 7, mediaStreamRef := Some [1],
       audioContextRef := Some 4, outputAudioContextRef := Some 5, outputNodeRef := Some 6,
       openContexts := {0, 1, 4, 5}, liveTracks := {0, 1}, connectedNodes := {2, 6},
       liveSessions := {3, 7}, nextHandle := 8\<rparr>"

definition exampleDoubledActive :: conversationView where
  "exampleDoubledActive =
     exampleDoubled\<lparr>isSessionActive := True, scriptProcessorRef := Some 11,
       mediaStreamSourceRef := Some 10, connectedNodes := {2, 6, 8, 9, 10, 11},
       nextHandle := 12\<rparr>"

definition exampleLeaked :: conversationView where
  "exampleLeaked =
     exampleDoubledActive\<lparr>isSessionActive := False, sessionPromiseRef := None,
       mediaStreamRef := None, audioContextRef := None, scriptProcessorRef := None,
       mediaStreamSourceRef := None, outputAudioContextRef := None, openContexts := {0, 1},
       liveTracks := {0}, connectedNodes := {2, 6, 8, 9}, liveSessions := {3}\<rparr>"

text \<open>
  Two messages that carry the interruption flag and an audio part the handler cannot
  process: a model turn without \<open>parts\<close>, and a payload that is not base64.
\<close>

definition interruptNoPartsMessage :: liveServerMessage where
  "interruptNoPartsMessage =
     \<lparr>serverContentOf =
        Some (emptyContent\<lparr>modelTurn := Some \<lparr>parts = None\<rparr>, interrupted := True\<rparr>)\<rparr>"

definition interruptBadPayloadMessage :: liveServerMessage where
  "interruptBadPayloadMessage =
     \<lparr>serverContentOf =
        Some (emptyContent\<lparr>modelTurn :=
                Some \<lparr>parts = Some [\<lparr>inlineData = Some \<lparr>blobData = Some ''%%%%''\<rparr>\<rparr>]\<rparr>,
              interrupted := True\<rparr>)\<rparr>"

text \<open>
  Example values for the codec: the rounding of a store into an \<open>Int16Array\<close> (toward
  zero), four samples (both boundaries, an inner value and one out of range), their PCM
  bytes, and what base64 encoding and decoding give on those bytes.
\<close>

definition truncToInt :: "real \<Rightarrow> int" where
  "truncToInt x = (if x < 0 then \<lceil>x\<rceil> else \<lfloor>x\<rfloor>)"

definition exampleSamples :: "real list" where
  "exampleSamples = [1, - 1, 1 / 2, 2]"

definition exampleBytes :: "byte list" where
  "exampleBytes = [255, 127, 0, 128, 0, 64, 255, 127]"

definition exampleEncode :: "byte list \<Rightarrow> string" where
  "exampleEncode bytes = (if bytes = exampleBytes then ''/38AgABA/38='' else [])"

definition exampleDecodeBytes :: "string \<Rightarrow> exn + byte list" where
  "exampleDecodeBytes s =
     (if s = ''/38AgABA/38='' then Inr exampleBytes
      else Inl (DOMException ''InvalidCharacterError''))"

section \<open>Properties: place discovery\<close>

lemma splitAtFirst_Some: "splitAtFirst pat s = Some (a, b) \<Longrightarrow> s = a @ pat @ b"
proof (induction s arbitrary: a b)
  case Nil
  then show ?case by (simp split: if_splits)
next
  case (Cons c cs)
  show ?case
  proof (cases "prefix pat (c # cs)")
    case True
    with Cons.prems have "a = []" "b = drop (length pat) (c # cs)" by simp_all
    moreover from True obtain r where "c # cs = pat @ r" by (auto simp: prefix_def)
    ultimately show ?thesis by simp
  next
    case False
    with Cons.prems obtain a' where "splitAtFirst pat cs = Some (a', b)" "a = c # a'"
      by (auto split: option.splits)
    with Cons.IH show ?thesis by simp
  qed
qed

lemma splitAtFirst_leftmost:
  "splitAtFirst pat s = Some (a, b) \<Longrightarrow> s = a' @ pat @ b' \<Longrightarrow> length a \<le> length a'"
proof (induction s arbitrary: a b a')
  case Nil
  then show ?case by (simp split: if_splits)
next
  case (Cons c cs)
  show ?case
  proof (cases "prefix pat (c # cs)")
    case True
    with Cons.prems(1) have "a = []" by simp
    then show ?thesis by simp
  next
    case False
    with Cons.prems(1) obtain a1 where s: "splitAtFirst pat cs = Some (a1, b)" "a = c # a1"
      by (auto split: option.splits)
    from False Cons.prems(2) have "a' \<noteq> []" by (auto simp: prefix_def)
    then obtain a2 where a2: "a' = c # a2" "cs = a2 @ pat @ b'"
      using Cons.prems(2) by (cases a') auto
    from Cons.IH [OF s(1) a2(2)] s(2) a2(1) show ?thesis by simp
  qed
qed

lemma splitAtFirst_prefix: "prefix pat s \<Longrightarrow> splitAtFirst pat s = Some ([], drop (length pat) s)"
  by (cases s) auto

lemma splitAtFirst_found: "\<exists>r. splitAtFirst pat (a' @ pat @ b') = Some r"
proof (induction a')
  case Nil
  show ?case by (simp add: splitAtFirst_prefix)
next
  case (Cons c cs)
  then show ?case by auto
qed

lemma splitAtFirst_None_iff:
  "splitAtFirst pat s = None \<longleftrightarrow> \<not> (\<exists>a b. s = a @ pat @ b)"
  using splitAtFirst_found [of pat] splitAtFirst_Some [of pat s]
  by (metis not_Some_eq surj_pair)

lemma jsonMatch_Some: 
  "jsonMatch text = Some content \<Longrightarrow> \<exists>pre post. text = pre @ fenceOpen @ content @ fenceClose @ post"
proof -
  assume m: "jsonMatch text = Some content"
  then obtain pre rest where a: "splitAtFirst fenceOpen text = Some (pre, rest)"
    by (auto simp: jsonMatch_def split: option.splits)
  with m obtain post where b: "splitAtFirst fenceClose rest = Some (content, post)"
    by (auto simp: jsonMatch_def split: option.splits)
  have "text = pre @ fenceOpen @ rest" using splitAtFirst_Some [OF a] .
  moreover have "rest = content @ fenceClose @ post" using splitAtFirst_Some [OF b] .
  ultimately have "text = pre @ fenceOpen @ content @ fenceClose @ post" by simp
  then show ?thesis by (intro exI)
qed

lemma jsonMatch_None_iff: "jsonMatch text = None \<longleftrightarrow> \<not> hasFence text"
proof
  assume "jsonMatch text = None"
  show "\<not> hasFence text"
  proof
    assume "hasFence text"
    then obtain pre content post where t: "text = pre @ fenceOpen @ content @ fenceClose @ post"
      by (auto simp: hasFence_def)
    then obtain a rest where s: "splitAtFirst fenceOpen text = Some (a, rest)"
      using splitAtFirst_found [of fenceOpen pre "content @ fenceClose @ post"] by auto
    have le: "length a \<le> length pre"
      using splitAtFirst_leftmost [OF s t] .
    have "text = a @ fenceOpen @ rest" using splitAtFirst_Some [OF s] .
    then have "rest = drop (length a + length fenceOpen) text" by simp
    also have "\<dots> = drop (length a + length fenceOpen) (pre @ fenceOpen) @ content @ fenceClose @ post"
      using le by (simp add: t)
    finally have "rest = (drop (length a + length fenceOpen) (pre @ fenceOpen) @ content) @ fenceClose @ post"
      by simp
    then have "\<exists>x y. rest = x @ fenceClose @ y" by (intro exI)
    then have "splitAtFirst fenceClose rest \<noteq> None"
      by (simp add: splitAtFirst_None_iff)
    with s \<open>jsonMatch text = None\<close> show False
      by (auto simp: jsonMatch_def split: option.splits)
  qed
next
  assume "\<not> hasFence text"
  then show "jsonMatch text = None"
    using jsonMatch_Some [of "text"] by (cases "jsonMatch text") (auto simp: hasFence_def)
qed


lemma includes_str_iff: "includes_str s key \<longleftrightarrow> (\<exists>a b. s = a @ key @ b)"
proof (induction s)
  case Nil
  then show ?case by auto
next
  case (Cons c cs)
  show ?case
  proof
    assume "includes_str (c # cs) key"
    then consider "prefix key (c # cs)" | "includes_str cs key" by auto
    then show "\<exists>a b. c # cs = a @ key @ b"
    proof cases
      case 1
      then obtain r where "c # cs = [] @ key @ r" by (auto simp: prefix_def)
      then show ?thesis by (intro exI)
    next
      case 2
      with Cons.IH obtain a b where "cs = a @ key @ b" by auto
      then have "c # cs = (c # a) @ key @ b" by simp
      then show ?thesis by (intro exI)
    qed
  next
    assume "\<exists>a b. c # cs = a @ key @ b"
    then obtain a b where ab: "c # cs = a @ key @ b" by auto
    show "includes_str (c # cs) key"
    proof (cases a)
      case Nil
      with ab have "prefix key (c # cs)" by (simp add: prefix_def)
      then show ?thesis by simp
    next
      case (Cons a0 as)
      with ab have "cs = as @ key @ b" by simp
      with Cons.IH show ?thesis by auto
    qed
  qed
qed

lemma formatErrorMessage_nonempty: "formatErrorMessage \<noteq> []"
  by (simp add: formatErrorMessage_def)

lemma discover_failure:
  "getNearbyPlaces parse resp = Inl e \<Longrightarrow>
   places (discover parse resp v) = None \<and>
   discoverError (discover parse resp v) = Some (orElse (Some (message e)) ''Failed to get information. Please try again.'')"
  by (simp add: discover_def handleFetchPlaces_def catchFetch_def cleanupAudio_def Let_def
      split: option.splits)

text \<open>A response without text fails in the same way: \<open>text.match\<close> throws inside the
  \<open>try\<close>.\<close>

lemma getNearbyPlaces_no_text:
  "responseText resp = None \<Longrightarrow> getNearbyPlaces parse resp = Inl (Error formatErrorMessage)"
  by (simp add: getNearbyPlaces_def parsePlaces_def)

text \<open>
  Claim C4.  When the response text has no fenced \<^verbatim>\<open>```json\<close> block, or the content of the
  block the pattern finds is rejected by \<open>JSON.parse\<close>, \<open>getNearbyPlaces\<close> throws the one
  format error, and the search ends with no places and that message as the error shown.
\<close>

theorem getNearbyPlaces_bad_format:
  assumes "responseText resp = Some t"
    and "\<not> hasFence t \<or> (\<exists>content e. jsonMatch t = Some content \<and> parse content = Inl e)"
  shows "getNearbyPlaces parse resp = Inl (Error formatErrorMessage) \<and>
         places (discover parse resp v) = None \<and>
         discoverError (discover parse resp v) = Some formatErrorMessage"
proof -
  have "\<exists>e. parsePlaces parse (Some t) = Inl e"
    using assms(2) by (auto simp: parsePlaces_def jsonMatch_None_iff [symmetric])
  then have g: "getNearbyPlaces parse resp = Inl (Error formatErrorMessage)"
    using assms(1) by (auto simp: getNearbyPlaces_def)
  from discover_failure [OF g, of v] formatErrorMessage_nonempty g show ?thesis by simp
qed

lemma no_fence: "\<not> hasFence ''Here are five places: []''"
  by (simp add: jsonMatch_None_iff [symmetric] jsonMatch_def fenceOpen_def fenceClose_def newline_def)

text \<open>Claim C4 at a response without a fence and at one whose fenced content is cut short.\<close>

theorem getNearbyPlaces_bad_format_witness:
  \<open>(getNearbyPlaces exampleParse \<lparr>responseText = Some ''Here are five places: []'', groundingChunks = []\<rparr>
      = Inl (Error formatErrorMessage) \<and>
    places (discover exampleParse \<lparr>responseText = Some ''Here are five places: []'', groundingChunks = []\<rparr> exampleView) = None \<and>
    discoverError (discover exampleParse \<lparr>responseText = Some ''Here are five places: []'', groundingChunks = []\<rparr> exampleView)
      = Some formatErrorMessage) \<and>
   (getNearbyPlaces exampleParse \<lparr>responseText = Some (fenceOpen @ ''[{"name":'' @ fenceClose), groundingChunks = []\<rparr>
      = Inl (Error formatErrorMessage) \<and>
    places (discover exampleParse \<lparr>responseText = Some (fenceOpen @ ''[{"name":'' @ fenceClose), groundingChunks = []\<rparr> exampleView) = None \<and>
    discoverError (discover exampleParse \<lparr>responseText = Some (fenceOpen @ ''[{"name":'' @ fenceClose), groundingChunks = []\<rparr> exampleView)
      = Some formatErrorMessage)\<close>
proof -
  have m: \<open>jsonMatch (fenceOpen @ ''[{"name":'' @ fenceClose) = Some ''[{"name":''\<close>
    by (simp add: jsonMatch_def fenceOpen_def fenceClose_def newline_def)
  have p: \<open>exampleParse ''[{"name":'' = Inl (SyntaxError ''Unexpected token'')\<close>
    by (simp add: exampleParse_def examplePlacesJson_def)
  show ?thesis
    using getNearbyPlaces_bad_format [of "\<lparr>responseText = Some ''Here are five places: []'', groundingChunks = []\<rparr>"
        "''Here are five places: []''" exampleParse exampleView]
      getNearbyPlaces_bad_format [of \<open>\<lparr>responseText = Some (fenceOpen @ ''[{"name":'' @ fenceClose), groundingChunks = []\<rparr>\<close>
        \<open>fenceOpen @ ''[{"name":'' @ fenceClose\<close> exampleParse exampleView]
      no_fence m p
    by simp
qed

text \<open>
  Claim C10.  \<open>getNearbyPlaces\<close> checks nothing about the shape of what \<open>JSON.parse\<close>
  returns: whatever value the content of the fenced block parses to is returned as \<open>places\<close>
  as it is, beside the sources collected from the grounding chunks.  (The content is not
  empty: an empty group is treated as no match, and no JSON text is empty.)
\<close>

theorem getNearbyPlaces_no_validation:
  assumes "responseText resp = Some t"
    and "jsonMatch t = Some content"
    and "content \<noteq> []"
    and "parse content = Inr v"
  shows "getNearbyPlaces parse resp = Inr (v, collectSources (groundingChunks resp))"
  using assms by (simp add: getNearbyPlaces_def parsePlaces_def)

text \<open>Claim C10 at an object and at an array of strings, neither an array of place records.\<close>

theorem getNearbyPlaces_no_validation_witness:
  \<open>getNearbyPlaces exampleParse
      \<lparr>responseText = Some (''Sure! '' @ fenceOpen @ ''{"places":3}'' @ fenceClose),
       groundingChunks = [\<lparr>web = Some \<lparr>linkUri = Some ''https://example.org'', linkTitle = None\<rparr>, maps = None\<rparr>]\<rparr>
    = Inr (JObject [(''places'', JNumber 3)],
           [\<lparr>uri = ''https://example.org'', title = ''Web Source'', type = ''web''\<rparr>]) \<and>
   getNearbyPlaces exampleParse
      \<lparr>responseText = Some (fenceOpen @ ''["a","b"]'' @ fenceClose), groundingChunks = []\<rparr>
    = Inr (JArray [JString ''a'', JString ''b''], [])\<close>
proof -
  have m1: \<open>jsonMatch (''Sure! '' @ fenceOpen @ ''{"places":3}'' @ fenceClose) = Some ''{"places":3}''\<close>
    by (simp add: jsonMatch_def fenceOpen_def fenceClose_def newline_def)
  have m2: \<open>jsonMatch (fenceOpen @ ''["a","b"]'' @ fenceClose) = Some ''["a","b"]''\<close>
    by (simp add: jsonMatch_def fenceOpen_def fenceClose_def newline_def)
  have p1: \<open>exampleParse ''{"places":3}'' = Inr (JObject [(''places'', JNumber 3)])\<close>
    by (simp add: exampleParse_def examplePlacesJson_def)
  have p2: \<open>exampleParse ''["a","b"]'' = Inr (JArray [JString ''a'', JString ''b''])\<close>
    by (simp add: exampleParse_def examplePlacesJson_def)
  have c: "collectSources [\<lparr>web = Some \<lparr>linkUri = Some ''https://example.org'', linkTitle = None\<rparr>, maps = None\<rparr>]
      = [\<lparr>uri = ''https://example.org'', title = ''Web Source'', type = ''web''\<rparr>]"
    by (simp add: collectSources_def chunkSources_def)
  show ?thesis
    using getNearbyPlaces_no_validation [where parse = exampleParse
        and resp = \<open>\<lparr>responseText = Some (''Sure! '' @ fenceOpen @ ''{"places":3}'' @ fenceClose),
       groundingChunks = [\<lparr>web = Some \<lparr>linkUri = Some ''https://example.org'', linkTitle = None\<rparr>, maps = None\<rparr>]\<rparr>\<close>
        and t = \<open>''Sure! '' @ fenceOpen @ ''{"places":3}'' @ fenceClose\<close>
        and content = \<open>''{"places":3}''\<close> and v = "JObject [(''places'', JNumber 3)]"]
      getNearbyPlaces_no_validation [where parse = exampleParse
        and resp = \<open>\<lparr>responseText = Some (fenceOpen @ ''["a","b"]'' @ fenceClose), groundingChunks = []\<rparr>\<close>
        and t = \<open>fenceOpen @ ''["a","b"]'' @ fenceClose\<close>
        and content = \<open>''["a","b"]''\<close> and v = "JArray [JString ''a'', JString ''b'']"]
      m1 m2 p1 p2 c
    by (simp add: collectSources_def)
qed

lemma mapE_all_Inr: "(\<And>x. x \<in> set xs \<Longrightarrow> f x = Inr (g x)) \<Longrightarrow> mapE f xs = Inr (map g xs)"
  by (induction xs) auto

text \<open>The entry \<open>handleFetchPlaces\<close> makes of a place record.\<close>

lemma decoratePlace_record:
  assumes "isPlaceRecord p"
  shows "\<exists>props c. p = JObject props \<and> stringProp p ''category'' = Some c \<and>
           decoratePlace p = Inr (JObject (AList.update ''imageUrl'' (JString (getCategoryImage (Some c))) props))"
proof -
  from assms obtain c where c: "stringProp p ''category'' = Some c"
    by (auto simp: isPlaceRecord_def)
  then obtain props where p: "p = JObject props" "map_of props ''category'' = Some (JString c)"
    by (auto simp: stringProp_def split: json.splits option.splits)
  then have "decoratePlace p = Inr (JObject (AList.update ''imageUrl'' (JString (getCategoryImage (Some c))) props))"
    by (simp add: decoratePlace_def readCategory_def callGetCategoryImage_def ownProperties_def)
  with c p show ?thesis by blast
qed

lemma stringProp_update:
  "stringProp (JObject (AList.update k (JString s) props)) k = Some s"
  by (simp add: stringProp_def update_conv')

lemma firstIncluded_cases:
  "firstIncluded l kvs = None \<and> (\<forall>(k, u) \<in> set kvs. \<not> includes_str l k) \<or>
   (\<exists>k u. firstIncluded l kvs = Some u \<and> (k, u) \<in> set kvs \<and> includes_str l k)"
  by (induction l kvs rule: firstIncluded.induct) auto


lemma images_nonempty:
  "natureImage \<noteq> []" "architectureImage \<noteq> []" "historyImage \<noteq> []"
  "foodImage \<noteq> []" "artImage \<noteq> []" "otherImage \<noteq> []"
  by (simp_all add: natureImage_def architectureImage_def historyImage_def foodImage_def
      artImage_def otherImage_def)

lemma other_no_term: "\<not> (\<exists>term \<in> set vocabulary. includes_str ''other'' term)"
  by (simp add: vocabulary_def)

lemma getCategoryImage_lowered:
  "getCategoryImage (Some c) =
     (let l = (if toLowerCase c = [] then ''other'' else toLowerCase c)
      in if includes_str l ''nature'' then natureImage
         else if includes_str l ''architecture'' then architectureImage
         else if includes_str l ''history'' then historyImage
         else if includes_str l ''food'' then foodImage
         else if includes_str l ''art'' then artImage
         else otherImage)"
  by (simp add: getCategoryImage_def categories_def Let_def)

lemma getCategoryImage_nonempty: "getCategoryImage category \<noteq> []"
proof (cases category)
  case None
  then show ?thesis
    by (simp add: getCategoryImage_def categories_def images_nonempty)
next
  case (Some c)
  then show ?thesis
    by (simp add: getCategoryImage_lowered Let_def images_nonempty)
qed

lemma getCategoryImage_choice:
  "if \<exists>term \<in> set vocabulary. matchesTerm c term
   then \<exists>term \<in> set vocabulary. matchesTerm c term \<and>
          map_of categories term = Some (getCategoryImage (Some c))
   else getCategoryImage (Some c) = otherImage"
proof (cases "toLowerCase c = []")
  case True
  then show ?thesis
    by (simp add: getCategoryImage_lowered matchesTerm_def vocabulary_def)
next
  case False
  then show ?thesis
    by (auto simp: getCategoryImage_lowered matchesTerm_def vocabulary_def categories_def Let_def)
qed


lemma stringProp_update_other:
  "k' \<noteq> k \<Longrightarrow> stringProp (JObject (AList.update k x props)) k' = stringProp (JObject props) k'"
  by (simp add: stringProp_def update_conv')

lemma discover_success:
  "getNearbyPlaces parse resp = Inr (found, srcs) \<Longrightarrow> decoratePlaces found = Inr entries \<Longrightarrow>
   places (discover parse resp v) = Some entries"
  by (simp add: discover_def handleFetchPlaces_def Let_def)

text \<open>
  Claim C5.  When the fenced block parses to an array of N place records, the search ends
  with exactly N entries, in order; entry \<open>i\<close> is place \<open>i\<close> with an \<open>imageUrl\<close> that is
  not empty, that is the illustration of a vocabulary term contained in the lowered
  category when there is such a term, and the generic one otherwise; the other string
  properties of the place are unchanged.
\<close>

theorem discover_decorates_every_place:
  assumes "responseText resp = Some t"
    and "jsonMatch t = Some content"
    and "content \<noteq> []"
    and "parse content = Inr (JArray ps)"
    and "\<forall>p \<in> set ps. isPlaceRecord p"
  shows "\<exists>entries.
           places (discover parse resp v) = Some entries \<and>
           length entries = length ps \<and>
           (\<forall>i < length ps.
              \<exists>c url.
                stringProp (ps ! i) ''category'' = Some c \<and>
                stringProp (entries ! i) ''imageUrl'' = Some url \<and>
                url \<noteq> [] \<and>
                (if \<exists>term \<in> set vocabulary. matchesTerm c term
                 then \<exists>term \<in> set vocabulary. matchesTerm c term \<and> map_of categories term = Some url
                 else url = otherImage) \<and>
                (\<forall>key. key \<noteq> ''imageUrl'' \<longrightarrow>
                   stringProp (entries ! i) key = stringProp (ps ! i) key))"
proof -
  define dec where "dec p = (case decoratePlace p of Inr d \<Rightarrow> d | Inl e \<Rightarrow> JNull)" for p
  have each: "decoratePlace p = Inr (dec p)" if "p \<in> set ps" for p
    using decoratePlace_record [of p] assms(5) that by (auto simp: dec_def)
  have g: "getNearbyPlaces parse resp = Inr (JArray ps, collectSources (groundingChunks resp))"
    using assms(1-4) by (simp add: getNearbyPlaces_def parsePlaces_def)
  have d: "decoratePlaces (JArray ps) = Inr (map dec ps)"
    using mapE_all_Inr [of ps decoratePlace dec] each by (simp add: decoratePlaces_def)
  have pl: "places (discover parse resp v) = Some (map dec ps)"
    using discover_success [OF g d] .
  have entry: "\<exists>c url.
                stringProp (ps ! i) ''category'' = Some c \<and>
                stringProp (map dec ps ! i) ''imageUrl'' = Some url \<and>
                url \<noteq> [] \<and>
                (if \<exists>term \<in> set vocabulary. matchesTerm c term
                 then \<exists>term \<in> set vocabulary. matchesTerm c term \<and> map_of categories term = Some url
                 else url = otherImage) \<and>
                (\<forall>key. key \<noteq> ''imageUrl'' \<longrightarrow>
                   stringProp (map dec ps ! i) key = stringProp (ps ! i) key)"
    if i: "i < length ps" for i
  proof -
    from i have mem: "ps ! i \<in> set ps" by simp
    with assms(5) have "isPlaceRecord (ps ! i)" by blast
    from decoratePlace_record [OF this] obtain props c where
      pc: "ps ! i = JObject props" "stringProp (ps ! i) ''category'' = Some c"
        "decoratePlace (ps ! i) = Inr (JObject (AList.update ''imageUrl'' (JString (getCategoryImage (Some c))) props))"
      by blast
    from each [OF mem] pc(3)
    have di: "dec (ps ! i) = JObject (AList.update ''imageUrl'' (JString (getCategoryImage (Some c))) props)"
      by simp
    have "stringProp (dec (ps ! i)) ''imageUrl'' = Some (getCategoryImage (Some c))"
      by (simp add: di stringProp_update)
    moreover have "\<forall>key. key \<noteq> ''imageUrl'' \<longrightarrow> stringProp (dec (ps ! i)) key = stringProp (ps ! i) key"
    proof -
      have "dec (JObject props) = JObject (AList.update ''imageUrl'' (JString (getCategoryImage (Some c))) props)"
        using di pc(1) by simp
      then show ?thesis by (simp add: pc(1) stringProp_update_other)
    qed
    ultimately show ?thesis
      using pc(2) getCategoryImage_nonempty [of "Some c"] getCategoryImage_choice [of c] i
      by (intro exI [of _ c] exI [of _ "getCategoryImage (Some c)"]) simp
  qed
  show ?thesis
    using pl entry by (intro exI [of _ "map dec ps"]) simp
qed

lemma exampleResponse_match: "jsonMatch (the (responseText exampleResponse)) = Some examplePlacesJson"
  by (simp add: exampleResponse_def jsonMatch_def fenceOpen_def fenceClose_def newline_def
      examplePlacesJson_def)

text \<open>Claim C5 at the example response, an array of two place records.\<close>

theorem discover_decorates_every_place_witness:
  "\<exists>entries.
     places (discover exampleParse exampleResponse exampleView) = Some entries \<and>
     length entries = length examplePlaceList \<and>
     (\<forall>i < length examplePlaceList.
        \<exists>c url.
          stringProp (examplePlaceList ! i) ''category'' = Some c \<and>
          stringProp (entries ! i) ''imageUrl'' = Some url \<and>
          url \<noteq> [] \<and>
          (if \<exists>term \<in> set vocabulary. matchesTerm c term
           then \<exists>term \<in> set vocabulary. matchesTerm c term \<and> map_of categories term = Some url
           else url = otherImage) \<and>
          (\<forall>key. key \<noteq> ''imageUrl'' \<longrightarrow>
             stringProp (entries ! i) key = stringProp (examplePlaceList ! i) key))"
proof -
  have h1: "responseText exampleResponse = Some (the (responseText exampleResponse))"
    by (simp add: exampleResponse_def)
  have h3: "examplePlacesJson \<noteq> []"
    by (simp add: examplePlacesJson_def)
  have h4: "exampleParse examplePlacesJson = Inr (JArray examplePlaceList)"
    by (simp add: exampleParse_def examplePlaces_def)
  have h5: "\<forall>p \<in> set examplePlaceList. isPlaceRecord p"
    by (simp add: examplePlaceList_def isPlaceRecord_def stringProp_def)
  show ?thesis
    by (rule discover_decorates_every_place [where parse = exampleParse, OF h1 exampleResponse_match h3 h4 h5])
qed

text \<open>The entries of the example: \<open>Street Art\<close> contains \<open>art\<close>, \<open>Industrial\<close> contains no
  term.\<close>

lemma example_entries:
  "places (discover exampleParse exampleResponse exampleView) =
     Some [JObject [(''name'', JString ''Mural Lane''), (''oneLiner'', JString ''Walls that talk.''),
               (''description'', JString ''An alley of murals.''), (''category'', JString ''Street Art''),
               (''imageUrl'', JString artImage)],
      JObject [(''name'', JString ''Old Mill''), (''oneLiner'', JString ''Still turning.''),
               (''description'', JString ''A water mill.''), (''category'', JString ''Industrial''),
               (''imageUrl'', JString otherImage)]]"
proof -
  have g: "getNearbyPlaces exampleParse exampleResponse = Inr (JArray examplePlaceList, [])"
    using exampleResponse_match
    by (simp add: getNearbyPlaces_def parsePlaces_def exampleResponse_def exampleParse_def
        examplePlaces_def collectSources_def examplePlacesJson_def)
  have a: "getCategoryImage (Some ''Street Art'') = artImage"
    by code_simp
  have b: "getCategoryImage (Some ''Industrial'') = otherImage"
    by code_simp
  show ?thesis
    by (simp add: discover_def handleFetchPlaces_def g Let_def decoratePlaces_def examplePlaceList_def
        decoratePlace_def readCategory_def callGetCategoryImage_def ownProperties_def a b
        cleanupAudio_def exampleView_def)
qed

text \<open>What the missing validation lets through comes to light one step later: an object
  has no \<open>map\<close>, so the search ends with the engine's \<open>TypeError\<close> message as the error shown.\<close>

lemma discover_non_array:
  assumes "getNearbyPlaces parse resp = Inr (JObject props, srcs)"
  shows "places (discover parse resp v) = None"
    and "discoverError (discover parse resp v) = Some ''foundPlaces.map is not a function''"
  using assms
  by (simp_all add: discover_def handleFetchPlaces_def decoratePlaces_def catchFetch_def
      cleanupAudio_def Let_def split: option.splits)

section \<open>Properties: live conversation\<close>

subsection \<open>Stopping sources\<close>

lemma stopSource_started:
  "x \<in> segSource ` set (scheduled st) \<Longrightarrow>
   stopSource x st = Inr (st\<lparr>stoppedSources := insert x (stoppedSources st)\<rparr>)"
  by (simp add: stopSource_def)

lemma stopSource_not_started:
  "x \<notin> segSource ` set (scheduled st) \<Longrightarrow>
   stopSource x st = Inl (DOMException ''InvalidStateError'', st)"
  by (simp add: stopSource_def)

lemma forEachE_stopSource:
  "set xs \<subseteq> segSource ` set (scheduled st) \<Longrightarrow>
   forEachE stopSource xs st = Inr (st\<lparr>stoppedSources := stoppedSources st \<union> set xs\<rparr>)"
proof (induction xs arbitrary: st)
  case Nil
  then show ?case by simp
next
  case (Cons x xs)
  from Cons.prems have x: "x \<in> segSource ` set (scheduled st)"
    and xs: "set xs \<subseteq> segSource ` set (scheduled (st\<lparr>stoppedSources := insert x (stoppedSources st)\<rparr>))"
    by auto
  show ?case
    using x Cons.IH [OF xs] by (simp add: stopSource_def andThen_def)
qed

text \<open>Stopping sources, completed or cut short by an exception, touches \<open>stoppedSources\<close> only.\<close>

lemma forEachE_stopSource_more:
  "\<exists>S. stateOf (forEachE stopSource xs st) = st\<lparr>stoppedSources := S\<rparr>"
proof (induction xs arbitrary: st)
  case Nil
  show ?case by (rule exI [of _ "stoppedSources st"]) simp
next
  case (Cons x xs)
  show ?case
  proof (cases "x \<in> segSource ` set (scheduled st)")
    case True
    from Cons.IH [of "st\<lparr>stoppedSources := insert x (stoppedSources st)\<rparr>"]
    obtain S where S: "stateOf (forEachE stopSource xs (st\<lparr>stoppedSources := insert x (stoppedSources st)\<rparr>))
        = st\<lparr>stoppedSources := insert x (stoppedSources st)\<rparr>\<lparr>stoppedSources := S\<rparr>" ..
    have "stateOf (forEachE stopSource (x # xs) st) = st\<lparr>stoppedSources := S\<rparr>"
      using True S by (simp add: stopSource_started andThen_def)
    then show ?thesis ..
  next
    case False
    have "stateOf (forEachE stopSource (x # xs) st) = st\<lparr>stoppedSources := stoppedSources st\<rparr>"
      using False by (simp add: stopSource_not_started andThen_def)
    then show ?thesis ..
  qed
qed

subsection \<open>The inbound message handler\<close>

text \<open>The transcript part of the handler leaves the audio state alone.\<close>

lemma transcript_part_audio:
  "outputAudioContextRef (flushTurn env msg (appendTranscriptions msg st)) = outputAudioContextRef st"
  "outputNodeRef (flushTurn env msg (appendTranscriptions msg st)) = outputNodeRef st"
  "nextStartTimeRef (flushTurn env msg (appendTranscriptions msg st)) = nextStartTimeRef st"
  "scheduled (flushTurn env msg (appendTranscriptions msg st)) = scheduled st"
  "sourcesRef (flushTurn env msg (appendTranscriptions msg st)) = sourcesRef st"
  "stoppedSources (flushTurn env msg (appendTranscriptions msg st)) = stoppedSources st"
  "nextHandle (flushTurn env msg (appendTranscriptions msg st)) = nextHandle st"
  by (simp_all add: flushTurn_def appendTranscriptions_def Let_def split: option.splits)

lemma scheduleAudio_schedules:
  assumes "outputAudioContextRef st \<noteq> None" and "outputNodeRef st \<noteq> None"
    and "base64Audio msg = Inr (Some a)" and "a \<noteq> []" and "decodeAudio env a = Inr buf"
  shows "scheduleAudio env msg st =
           Inr (st\<lparr>nextStartTimeRef := max (nextStartTimeRef st) (currentTime env) + duration buf,
                   nextHandle := nextHandle st + 1,
                   connectedNodes := insert (nextHandle st) (connectedNodes st),
                   scheduled := scheduled st @
                     [\<lparr>segSource = nextHandle st,
                       segStart = max (nextStartTimeRef st) (currentTime env),
                       segDuration = duration buf\<rparr>],
                   sourcesRef := setAdd (nextHandle st) (sourcesRef st)\<rparr>)"
  using assms by (simp add: scheduleAudio_def Let_def)


lemma onmessage_not_interrupted:
  "\<not> isInterrupted msg \<Longrightarrow>
   onmessage env msg st = scheduleAudio env msg (flushTurn env msg (appendTranscriptions msg st))"
  by (simp add: onmessage_def handleInterrupted_def andThen_def split: sum.splits)






text \<open>The audio and interruption parts of the handler leave the transcript state alone,
  also when they throw.\<close>

lemma scheduleAudio_transcripts:
  "transcripts (stateOf (scheduleAudio env msg st)) = transcripts st"
  "currentInputTranscriptionRef (stateOf (scheduleAudio env msg st)) = currentInputTranscriptionRef st"
  "currentOutputTranscriptionRef (stateOf (scheduleAudio env msg st)) = currentOutputTranscriptionRef st"
  by (simp_all add: scheduleAudio_def Let_def split: sum.splits)

lemma handleInterrupted_transcripts:
  "transcripts (stateOf (handleInterrupted msg st)) = transcripts st"
  "currentInputTranscriptionRef (stateOf (handleInterrupted msg st)) = currentInputTranscriptionRef st"
  "currentOutputTranscriptionRef (stateOf (handleInterrupted msg st)) = currentOutputTranscriptionRef st"
proof -
  obtain S where S: "stateOf (forEachE stopSource (sourcesRef st) st) = st\<lparr>stoppedSources := S\<rparr>"
    using forEachE_stopSource_more [of "sourcesRef st" st] ..
  show "transcripts (stateOf (handleInterrupted msg st)) = transcripts st"
    "currentInputTranscriptionRef (stateOf (handleInterrupted msg st)) = currentInputTranscriptionRef st"
    "currentOutputTranscriptionRef (stateOf (handleInterrupted msg st)) = currentOutputTranscriptionRef st"
    using S by (cases "forEachE stopSource (sourcesRef st) st"; auto simp: handleInterrupted_def andThen_def)+
qed

lemma onmessage_transcripts:
  "transcripts (stateOf (onmessage env msg st)) = transcripts (flushTurn env msg (appendTranscriptions msg st))"
  "currentInputTranscriptionRef (stateOf (onmessage env msg st)) =
     currentInputTranscriptionRef (flushTurn env msg (appendTranscriptions msg st))"
  "currentOutputTranscriptionRef (stateOf (onmessage env msg st)) =
     currentOutputTranscriptionRef (flushTurn env msg (appendTranscriptions msg st))"
proof -
  let ?mid = "flushTurn env msg (appendTranscriptions msg st)"
  show "transcripts (stateOf (onmessage env msg st)) = transcripts ?mid"
    using scheduleAudio_transcripts(1) [of env msg ?mid] handleInterrupted_transcripts(1) [of msg]
    by (cases "scheduleAudio env msg ?mid") (auto simp: onmessage_def andThen_def)
  show "currentInputTranscriptionRef (stateOf (onmessage env msg st)) = currentInputTranscriptionRef ?mid"
    using scheduleAudio_transcripts(2) [of env msg ?mid] handleInterrupted_transcripts(2) [of msg]
    by (cases "scheduleAudio env msg ?mid") (auto simp: onmessage_def andThen_def)
  show "currentOutputTranscriptionRef (stateOf (onmessage env msg st)) = currentOutputTranscriptionRef ?mid"
    using scheduleAudio_transcripts(3) [of env msg ?mid] handleInterrupted_transcripts(3) [of msg]
    by (cases "scheduleAudio env msg ?mid") (auto simp: onmessage_def andThen_def)
qed

text \<open>
  Claim C6.  On a message with \<open>turnComplete\<close> the handler, whether or not its audio part
  throws afterwards, appends to the log a user entry exactly when the input buffer is not
  empty, then a model entry exactly when the output buffer is not empty: at most two
  entries, and only the model entry when the input buffer is empty and the output buffer
  is not.  The entries' identifiers are \<open>Date.now()\<close> and \<open>Date.now() + 1\<close>, strictly
  increasing as long as the clock does not step back between the two readings.  Both
  buffers are empty afterwards.  The buffers are the ones the message's own transcription
  fragments have been appended to.
\<close>

theorem turnComplete_flushes_buffers:
  assumes "isTurnComplete msg"
  shows "let input = currentInputTranscriptionRef (appendTranscriptions msg st);
             output = currentOutputTranscriptionRef (appendTranscriptions msg st);
             userEntry = \<lparr>transcriptId = dateNow1 env, transcriptSpeaker = User, transcriptText = input\<rparr>;
             modelEntry = \<lparr>transcriptId = dateNow2 env + 1, transcriptSpeaker = Model, transcriptText = output\<rparr>;
             appended = (if input \<noteq> [] then [userEntry] else []) @ (if output \<noteq> [] then [modelEntry] else []);
             st' = stateOf (onmessage env msg st)
         in transcripts st' = transcripts st @ appended \<and>
            length appended \<le> 2 \<and>
            (input = [] \<and> output \<noteq> [] \<longrightarrow> appended = [modelEntry]) \<and>
            (dateNow1 env \<le> dateNow2 env \<longrightarrow> sorted_wrt (<) (map transcriptId appended)) \<and>
            currentInputTranscriptionRef st' = [] \<and>
            currentOutputTranscriptionRef st' = []"
  using assms
  by (simp add: onmessage_transcripts flushTurn_def turnEntries_def Let_def
      appendTranscriptions_def split: option.splits)


text \<open>The transcript part keeps every tracked source a started one.\<close>

lemma transcript_part_sourcesStarted:
  "sourcesStarted (flushTurn env msg (appendTranscriptions msg st)) = sourcesStarted st"
  by (simp add: sourcesStarted_def transcript_part_audio)


lemma handleInterrupted_resets:
  assumes "isInterrupted msg" and "sourcesStarted st"
  shows "handleInterrupted msg st =
           Inr (st\<lparr>stoppedSources := stoppedSources st \<union> set (sourcesRef st),
                   sourcesRef := [], nextStartTimeRef := 0\<rparr>)"
  using assms forEachE_stopSource [of "sourcesRef st" st]
  by (simp add: handleInterrupted_def sourcesStarted_def andThen_def)


subsection \<open>The examples\<close>

lemma exampleConnecting_reached: "startConversation exampleStartEnv initialView = exampleConnecting"
  by (simp add: startConversation_def startBody_def exampleStartEnv_def initialView_def
      exampleConnecting_def Let_def insert_commute)

lemma exampleActive_reached: "onopen exampleConnecting = Inr exampleActive"
  by (simp add: onopen_def exampleConnecting_def exampleActive_def Let_def insert_commute)

lemma exampleBuffer_decoded: "decodeAudioData [0, 0, 0, 0, 0, 0] 24000 1 = Inr exampleBuffer"
  by (simp add: decodeAudioData_def exampleBuffer_def normalizeSample_def Let_def upt_rec)

lemma audioMessage_payload:
  "base64Audio (audioMessage d) = Inr (Some d)" "\<not> isInterrupted (audioMessage d)"
  "\<not> isTurnComplete (audioMessage d)"
  by (simp_all add: base64Audio_def audioMessage_def emptyContent_def isInterrupted_def
      isTurnComplete_def)

lemma exampleDecode_payload: "decodeAudio (exampleEnv t) ''AAAAAAAA'' = Inr exampleBuffer"
  by (simp add: exampleEnv_def exampleDecode_def)

lemma exampleActive_output:
  "outputAudioContextRef exampleActive \<noteq> None" "outputNodeRef exampleActive \<noteq> None"
  by (simp_all add: exampleActive_def exampleConnecting_def)

lemma audioMessage_transcript_part:
  "flushTurn env (audioMessage d) (appendTranscriptions (audioMessage d) st) = st"
  by (simp add: flushTurn_def isTurnComplete_def appendTranscriptions_def audioMessage_def
      emptyContent_def)

lemma onmessage_example_audio:
  assumes "outputAudioContextRef st \<noteq> None" and "outputNodeRef st \<noteq> None"
  shows "onmessage (exampleEnv t) (audioMessage ''AAAAAAAA'') st =
           Inr (st\<lparr>nextStartTimeRef := max (nextStartTimeRef st) t + 1 / 8000,
                   nextHandle := nextHandle st + 1,
                   connectedNodes := insert (nextHandle st) (connectedNodes st),
                   scheduled := scheduled st @
                     [\<lparr>segSource = nextHandle st, segStart = max (nextStartTimeRef st) t,
                       segDuration = 1 / 8000\<rparr>],
                   sourcesRef := setAdd (nextHandle st) (sourcesRef st)\<rparr>)"
proof -
  have d: "duration exampleBuffer = 1 / 8000"
    by (simp add: duration_def exampleBuffer_def)
  have t: "currentTime (exampleEnv t) = t"
    by (simp add: exampleEnv_def)
  show ?thesis
    using scheduleAudio_schedules [OF assms audioMessage_payload(1) _ exampleDecode_payload, of t]
    by (simp add: onmessage_not_interrupted audioMessage_payload audioMessage_transcript_part d t)
qed

lemma examplePlaying_reached:
  "andThen (onmessage (exampleEnv 1) (audioMessage ''AAAAAAAA'') exampleActive)
     (onmessage (exampleEnv 1) (audioMessage ''AAAAAAAA'')) = Inr examplePlaying"
proof -
  have 1: "onmessage (exampleEnv 1) (audioMessage ''AAAAAAAA'') exampleActive =
      Inr (exampleActive\<lparr>sourcesRef := [6], nextStartTimeRef := 1 + 1 / 8000,
       scheduled := [\<lparr>segSource = 6, segStart = 1, segDuration = 1 / 8000\<rparr>],
       connectedNodes := {2, 4, 5, 6}, nextHandle := 7\<rparr>)"
    by (simp add: onmessage_example_audio exampleActive_output)
      (simp add: exampleActive_def exampleConnecting_def setAdd_def insert_commute)
  have 2: "onmessage (exampleEnv 1) (audioMessage ''AAAAAAAA'')
       (exampleActive\<lparr>sourcesRef := [6], nextStartTimeRef := 1 + 1 / 8000,
       scheduled := [\<lparr>segSource = 6, segStart = 1, segDuration = 1 / 8000\<rparr>],
       connectedNodes := {2, 4, 5, 6}, nextHandle := 7\<rparr>) = Inr examplePlaying"
    apply (simp add: onmessage_example_audio exampleActive_output)
    apply (simp add: exampleActive_def exampleConnecting_def examplePlaying_def setAdd_def insert_commute)
    done
  show ?thesis by (simp only: 1 andThen_def sum.case 2)
qed



text \<open>In the example the two segments start at 1 and at 1 + 1/8000, the first one's end.\<close>

lemma examplePlaying_starts: "map segStart (scheduled examplePlaying) = [1, 1 + 1 / 8000]"
  by (simp add: examplePlaying_def)




text \<open>In the example the watermark before the interruption is 1 + 2/8000; the segment that
  follows starts at the clock, 1.\<close>

lemma examplePlaying_watermark: "nextStartTimeRef examplePlaying = 1 + 1 / 8000 + 1 / 8000"
  by (simp add: examplePlaying_def)

text \<open>
  The audio branch runs before the interrupted branch and nothing in the handler catches.
  When the payload does not decode the handler throws out of the audio branch, with the
  watermark raised to the clock and nothing else of the audio state changed: the
  interruption is not handled.
\<close>

lemma onmessage_throws_before_interruption:
  assumes "outputAudioContextRef st \<noteq> None" and "outputNodeRef st \<noteq> None"
    and "base64Audio msg = Inr (Some a)" and "a \<noteq> []" and "decodeAudio env a = Inl e"
  shows "onmessage env msg st =
           Inl (e, (flushTurn env msg (appendTranscriptions msg st))
                     \<lparr>nextStartTimeRef := max (nextStartTimeRef st) (currentTime env)\<rparr>)"
  using assms by (simp add: onmessage_def scheduleAudio_def andThen_def transcript_part_audio)

lemma interruptBadPayloadMessage_facts:
  "isInterrupted interruptBadPayloadMessage"
  "base64Audio interruptBadPayloadMessage = Inr (Some ''%%%%'')"
  "decodeAudio (exampleEnv t) ''%%%%'' = Inl (DOMException ''InvalidCharacterError'')"
  "\<not> audioReturns (exampleEnv t) interruptBadPayloadMessage"
  by (simp_all add: isInterrupted_def interruptBadPayloadMessage_def emptyContent_def
      base64Audio_def exampleEnv_def exampleDecode_def audioReturns_def)


text \<open>The same happens on a model turn without \<open>parts\<close>: reading \<open>parts[0]\<close> throws.\<close>

lemma interruption_lost_without_parts:
  "isInterrupted interruptNoPartsMessage"
  "isl (onmessage (exampleEnv 1) interruptNoPartsMessage examplePlaying)"
  "sourcesRef (stateOf (onmessage (exampleEnv 1) interruptNoPartsMessage examplePlaying)) = [6, 7]"
  "stoppedSources (stateOf (onmessage (exampleEnv 1) interruptNoPartsMessage examplePlaying)) = {}"
  "nextStartTimeRef (stateOf (onmessage (exampleEnv 1) interruptNoPartsMessage examplePlaying))
     = 1 + 1 / 8000 + 1 / 8000"
  by (simp_all add: onmessage_def scheduleAudio_def base64Audio_def handleInterrupted_def
      isInterrupted_def flushTurn_def isTurnComplete_def appendTranscriptions_def andThen_def
      interruptNoPartsMessage_def emptyContent_def
      examplePlaying_def exampleActive_def exampleConnecting_def exampleEnv_def exampleDecode_def
      Let_def)

lemma replyCompleteMessage_facts:
  "isTurnComplete replyCompleteMessage"
  "currentInputTranscriptionRef (appendTranscriptions replyCompleteMessage exampleActive) = []"
  "currentOutputTranscriptionRef (appendTranscriptions replyCompleteMessage exampleActive) = ''Hello''"
  by (simp_all add: isTurnComplete_def replyCompleteMessage_def emptyContent_def
      appendTranscriptions_def appendedText_def exampleActive_def exampleConnecting_def)

text \<open>Claim C6 at the active example: a turn completes with a reply and no user text.\<close>

theorem turnComplete_flushes_buffers_witness:
  "isTurnComplete replyCompleteMessage \<and>
   transcripts (stateOf (onmessage (exampleEnv 1) replyCompleteMessage exampleActive)) =
     [\<lparr>transcriptId = 1700000000001, transcriptSpeaker = Model, transcriptText = ''Hello''\<rparr>] \<and>
   currentInputTranscriptionRef (stateOf (onmessage (exampleEnv 1) replyCompleteMessage exampleActive)) = [] \<and>
   currentOutputTranscriptionRef (stateOf (onmessage (exampleEnv 1) replyCompleteMessage exampleActive)) = []"
  using turnComplete_flushes_buffers [OF replyCompleteMessage_facts(1), of exampleActive "exampleEnv 1"]
    replyCompleteMessage_facts
  by (simp add: Let_def exampleEnv_def exampleActive_def exampleConnecting_def)

text \<open>Over the whole log the identifiers increase as far as the clock does: when every
  identifier in the log is below the first reading.\<close>

lemma turn_ids_increase_in_log:
  assumes "isTurnComplete msg"
    and "sorted_wrt (<) (map transcriptId (transcripts st))"
    and "\<forall>e \<in> set (transcripts st). transcriptId e < dateNow1 env"
    and "dateNow1 env \<le> dateNow2 env"
  shows "sorted_wrt (<) (map transcriptId (transcripts (stateOf (onmessage env msg st))))"
  using assms
  by (auto simp: onmessage_transcripts flushTurn_def turnEntries_def Let_def
      appendTranscriptions_def sorted_wrt_append split: option.splits)

subsection \<open>The stop path\<close>

lemma fold_stopTrack: "fold stopTrack ts st = st\<lparr>liveTracks := liveTracks st - set ts\<rparr>"
proof (induction ts arbitrary: st)
  case Nil
  show ?case by simp
next
  case (Cons t ts)
  have eq: "liveTracks st - {t} - set ts = liveTracks st - insert t (set ts)" by blast
  have "fold stopTrack (t # ts) st = fold stopTrack ts (stopTrack t st)" by simp
  also have "\<dots> = (stopTrack t st)\<lparr>liveTracks := liveTracks (stopTrack t st) - set ts\<rparr>"
    by (rule Cons.IH)
  also have "\<dots> = st\<lparr>liveTracks := liveTracks st - set (t # ts)\<rparr>"
    by (simp add: stopTrack_def eq)
  finally show ?case .
qed

text \<open>\<open>cleanup\<close> after the sources are stopped: the five guarded blocks.\<close>

lemma cleanup_unfold:
  assumes "sourcesStarted st"
  shows "cleanup st =
     (let st1 = st\<lparr>stoppedSources := stoppedSources st \<union> set (sourcesRef st), sourcesRef := []\<rparr>;
           st2 = (case scriptProcessorRef st1 of
                    None \<Rightarrow> st1
                  | Some n \<Rightarrow> (disconnectNode n st1)\<lparr>scriptProcessorRef := None\<rparr>);
           st3 = (case mediaStreamSourceRef st2 of
                    None \<Rightarrow> st2
                  | Some n \<Rightarrow> (disconnectNode n st2)\<lparr>mediaStreamSourceRef := None\<rparr>);
           st4 = (case audioContextRef st3 of
                    None \<Rightarrow> st3
                  | Some c \<Rightarrow>
                      (if c \<in> openContexts st3
                       then (closeContext c st3)\<lparr>audioContextRef := None\<rparr>
                       else st3));
           st5 = (case outputAudioContextRef st4 of
                    None \<Rightarrow> st4
                  | Some c \<Rightarrow>
                      (if c \<in> openContexts st4
                       then (closeContext c st4)\<lparr>outputAudioContextRef := None\<rparr>
                       else st4));
           st6 = (case mediaStreamRef st5 of
                    None \<Rightarrow> st5
                  | Some tracks \<Rightarrow> (fold stopTrack tracks st5)\<lparr>mediaStreamRef := None\<rparr>)
       in Inr st6)"
  using assms forEachE_stopSource [of "sourcesRef st" st]
  by (simp add: cleanup_def sourcesStarted_def andThen_def)

lemma cleanup_returns:
  assumes "sourcesStarted st"
  shows "\<exists>st'. cleanup st = Inr st' \<and>
           sourcesRef st' = [] \<and> scriptProcessorRef st' = None \<and>
           mediaStreamSourceRef st' = None \<and> mediaStreamRef st' = None \<and>
           (case audioContextRef st' of None \<Rightarrow> True | Some c \<Rightarrow> c \<notin> openContexts st') \<and>
           (case outputAudioContextRef st' of None \<Rightarrow> True | Some c \<Rightarrow> c \<notin> openContexts st') \<and>
           openContexts st' = openContexts st - heldContexts st \<and>
           liveTracks st' = liveTracks st - heldTracks st \<and>
           stoppedSources st' = stoppedSources st \<union> set (sourcesRef st) \<and>
           isSessionActive st' = isSessionActive st \<and>
           sessionPromiseRef st' = sessionPromiseRef st \<and>
           error st' = error st \<and>
           transcripts st' = transcripts st \<and>
           liveSessions st' = liveSessions st \<and>
           scheduled st' = scheduled st"
  unfolding cleanup_unfold [OF assms]
  by (auto simp: Let_def fold_stopTrack closeContext_def disconnectNode_def heldContexts_def
      heldTracks_def split: option.splits)


lemma cleanup_sourcesStarted: "sourcesStarted st \<Longrightarrow> sourcesStarted (stateOf (cleanup st))"
  using cleanup_returns [of st] by (auto simp: sourcesStarted_def)

text \<open>The second half of a stop is \<open>cleanup\<close> of the state with the promise dropped and,
  unless \<open>close\<close> threw, the session no longer live.\<close>

lemma stopConversationResume_unfold:
  "stopConversationResume env p st =
     cleanup (st\<lparr>liveSessions := sessionsAfterClose env p st, sessionPromiseRef := None\<rparr>)"
proof (cases st)
  case (fields a b c d e f g h i j k l m n q r s t u v w)
  show ?thesis
    unfolding fields
    by (simp add: stopConversationResume_def closeSession_def sessionsAfterClose_def Let_def
        split: option.splits)
qed

lemma sessionsAfterClose_facts:
  "sessionsAfterClose env p st \<subseteq> liveSessions st"
  "closeThrows env = None \<Longrightarrow> p \<notin> sessionsAfterClose env p st"
  by (auto simp: sessionsAfterClose_def)

lemma stopConversationResume_returns:
  assumes "sourcesStarted st"
  shows "\<exists>st'. stopConversationResume env p st = Inr st' \<and> refsReleased st' \<and>
           openContexts st' = openContexts st - heldContexts st \<and>
           liveTracks st' = liveTracks st - heldTracks st \<and>
           stoppedSources st' = stoppedSources st \<union> set (sourcesRef st) \<and>
           isSessionActive st' = isSessionActive st \<and>
           error st' = error st \<and>
           transcripts st' = transcripts st \<and>
           liveSessions st' = sessionsAfterClose env p st \<and>
           scheduled st' = scheduled st"
proof -
  let ?st2 = "st\<lparr>liveSessions := sessionsAfterClose env p st, sessionPromiseRef := None\<rparr>"
  have "sourcesStarted ?st2" using assms by (simp add: sourcesStarted_def)
  from cleanup_returns [OF this] obtain st' where
    c: "cleanup ?st2 = Inr st'"
      "sourcesRef st' = []" "scriptProcessorRef st' = None"
      "mediaStreamSourceRef st' = None" "mediaStreamRef st' = None"
      "(case audioContextRef st' of None \<Rightarrow> True | Some c \<Rightarrow> c \<notin> openContexts st')"
      "(case outputAudioContextRef st' of None \<Rightarrow> True | Some c \<Rightarrow> c \<notin> openContexts st')"
      "openContexts st' = openContexts ?st2 - heldContexts ?st2"
      "liveTracks st' = liveTracks ?st2 - heldTracks ?st2"
      "stoppedSources st' = stoppedSources ?st2 \<union> set (sourcesRef ?st2)"
      "isSessionActive st' = isSessionActive ?st2"
      "sessionPromiseRef st' = sessionPromiseRef ?st2"
      "error st' = error ?st2"
      "transcripts st' = transcripts ?st2"
      "liveSessions st' = liveSessions ?st2"
      "scheduled st' = scheduled ?st2"
    by (elim exE conjE)
  have 1: "stopConversationResume env p st = Inr st'"
    using c(1) by (simp only: stopConversationResume_unfold)
  have 2: "refsReleased st'"
    using c(2-7,12) by (simp add: refsReleased_def)
  have 3: "openContexts st' = openContexts st - heldContexts st"
    using c(8) by (simp add: heldContexts_def)
  have 4: "liveTracks st' = liveTracks st - heldTracks st"
    using c(9) by (simp add: heldTracks_def)
  have 5: "stoppedSources st' = stoppedSources st \<union> set (sourcesRef st)"
    using c(10) by simp
  have 6: "isSessionActive st' = isSessionActive st" using c(11) by simp
  have 7: "error st' = error st" using c(13) by simp
  have 8: "transcripts st' = transcripts st" using c(14) by simp
  have 9: "liveSessions st' = sessionsAfterClose env p st" using c(15) by simp
  have 10: "scheduled st' = scheduled st" using c(16) by simp
  from 1 2 3 4 5 6 7 8 9 10 show ?thesis by (intro exI [of _ st'] conjI)
qed

lemma stopConversationResume_sourcesStarted:
  "sourcesStarted st \<Longrightarrow> sourcesStarted (stateOf (stopConversationResume env p st))"
  using stopConversationResume_returns [of st env p]
  by (auto simp: sourcesStarted_def refsReleased_def)

text \<open>The two cases of a whole stop.\<close>

lemma stopConversation_no_promise:
  "sessionPromiseRef st = None \<Longrightarrow>
   stopConversation env during st = cleanup (st\<lparr>isSessionActive := False\<rparr>)"
  by (simp add: stopConversation_def stopConversationBegin_def Let_def)

lemma stopConversation_promise:
  "sessionPromiseRef st = Some p \<Longrightarrow>
   stopConversation env during st = stopConversationResume env p (stateAtResume during st)"
  by (simp add: stopConversation_def stopConversationBegin_def stateAtResume_def Let_def)

text \<open>A stop during which nothing runs is \<open>cleanup\<close> of the state with the session marked
  inactive, the promise dropped and, unless \<open>close\<close> threw, the session no longer live.\<close>

lemma stopConversation_unfold:
  "stopConversation env [] st =
     cleanup (st\<lparr>isSessionActive := False, liveSessions := sessionsAfterStop env st,
                sessionPromiseRef := None\<rparr>)"
proof (cases st)
  case (fields a b c d e f g h i j k l m n p q r s t u v)
  show ?thesis
    unfolding fields
    by (simp add: stopConversation_def stopConversationBegin_def stopConversationResume_def
        closeSession_def sessionsAfterStop_def sessionsAfterClose_def Let_def
        split: option.splits)
qed


subsection \<open>The handlers keep every tracked source a started one\<close>

lemma sourcesStarted_initialView: "sourcesStarted initialView"
  by (simp add: sourcesStarted_def initialView_def)

lemma sourcesStarted_startConversation:
  "sourcesStarted st \<Longrightarrow> sourcesStarted (startConversation env st)"
  by (auto simp: sourcesStarted_def startConversation_def startBody_def Let_def
      split: sum.splits option.splits)

lemma sourcesStarted_onopen: "sourcesStarted st \<Longrightarrow> sourcesStarted (stateOf (onopen st))"
  by (auto simp: sourcesStarted_def onopen_def Let_def split: option.splits)

lemma sourcesStarted_sourceEnded: "sourcesStarted st \<Longrightarrow> sourcesStarted (sourceEnded src st)"
  by (auto simp: sourcesStarted_def sourceEnded_def)

lemma sourcesStarted_scheduleAudio:
  "sourcesStarted st \<Longrightarrow> sourcesStarted (stateOf (scheduleAudio env msg st))"
  by (auto simp: sourcesStarted_def scheduleAudio_def Let_def setAdd_def split: sum.splits)

lemma sourcesStarted_handleInterrupted:
  assumes "sourcesStarted st"
  shows "sourcesStarted (stateOf (handleInterrupted msg st))"
proof (cases "isInterrupted msg")
  case True
  with assms show ?thesis
    by (simp add: handleInterrupted_resets) (simp add: sourcesStarted_def)
next
  case False
  with assms show ?thesis by (simp add: handleInterrupted_def)
qed

lemma sourcesStarted_onmessage:
  assumes "sourcesStarted st"
  shows "sourcesStarted (stateOf (onmessage env msg st))"
proof -
  let ?mid = "flushTurn env msg (appendTranscriptions msg st)"
  have m: "sourcesStarted ?mid" using assms by (simp add: transcript_part_sourcesStarted)
  show ?thesis
  proof (cases "scheduleAudio env msg ?mid")
    case (Inl x)
    with sourcesStarted_scheduleAudio [OF m, of env msg] show ?thesis
      by (cases x) (simp add: onmessage_def andThen_def)
  next
    case (Inr r)
    with sourcesStarted_scheduleAudio [OF m, of env msg] have "sourcesStarted r" by simp
    from sourcesStarted_handleInterrupted [OF this, of msg] Inr show ?thesis
      by (simp add: onmessage_def andThen_def)
  qed
qed

lemma sourcesStarted_begun:
  assumes "sourcesStarted st"
  shows "sourcesStarted (begun (stopConversationBegin st))"
proof (cases "sessionPromiseRef st")
  case None
  have s: "sourcesStarted (st\<lparr>isSessionActive := False\<rparr>)"
    using assms by (simp add: sourcesStarted_def)
  from cleanup_returns [OF s] obtain st' where
    "cleanup (st\<lparr>isSessionActive := False\<rparr>) = Inr st'" "sourcesRef st' = []"
    by (elim exE conjE)
  with None show ?thesis
    by (simp add: stopConversationBegin_def Let_def sourcesStarted_def)
next
  case (Some p)
  with assms show ?thesis
    by (simp add: stopConversationBegin_def Let_def sourcesStarted_def)
qed

lemma sourcesStarted_deliver:
  assumes "sourcesStarted st"
  shows "sourcesStarted (deliver ev st)"
proof (cases ev)
  case Opened
  with assms show ?thesis by (simp add: sourcesStarted_onopen)
next
  case (Received env msg)
  with assms show ?thesis by (simp add: sourcesStarted_onmessage)
next
  case (Ended src)
  with assms show ?thesis by (simp add: sourcesStarted_sourceEnded)
next
  case (Clicked senv)
  with assms show ?thesis
    by (cases "renderedButton st")
      (simp_all add: sourcesStarted_startConversation sourcesStarted_begun)
next
  case (Errored e)
  have "sourcesStarted (st\<lparr>error := Some conversationErrorMessage\<rparr>)"
    using assms by (simp add: sourcesStarted_def)
  with Errored show ?thesis by (simp add: sourcesStarted_begun)
next
  case Closed
  with assms show ?thesis by (simp add: sourcesStarted_begun)
next
  case (Resumed env p)
  with assms show ?thesis by (simp add: stopConversationResume_sourcesStarted)
qed

lemma sourcesStarted_events:
  "sourcesStarted st \<Longrightarrow> sourcesStarted (fold deliver during st)"
  by (induction during arbitrary: st) (simp_all add: sourcesStarted_deliver)

lemma sourcesStarted_stateAtResume:
  "sourcesStarted st \<Longrightarrow> sourcesStarted (stateAtResume during st)"
proof -
  assume "sourcesStarted st"
  then have "sourcesStarted (st\<lparr>isSessionActive := False\<rparr>)" by (simp add: sourcesStarted_def)
  then show ?thesis unfolding stateAtResume_def by (rule sourcesStarted_events)
qed

subsection \<open>What a stop leaves\<close>

text \<open>
  Whatever runs while it waits, a stop returns once its promise has settled, with the refs
  released and everything closed or stopped that the refs held when it went on: at the
  call when there was no promise to wait for, when the promise settled otherwise.
\<close>

lemma stopConversation_returns_any:
  assumes "sourcesStarted st"
  shows "\<exists>st' mid.
           mid = (case sessionPromiseRef st of
                    None \<Rightarrow> st\<lparr>isSessionActive := False\<rparr>
                  | Some p \<Rightarrow> stateAtResume during st) \<and>
           stopConversation env during st = Inr st' \<and> refsReleased st' \<and>
           openContexts st' = openContexts mid - heldContexts mid \<and>
           liveTracks st' = liveTracks mid - heldTracks mid \<and>
           isSessionActive st' = isSessionActive mid"
proof (cases "sessionPromiseRef st")
  case None
  let ?mid = "st\<lparr>isSessionActive := False\<rparr>"
  have s: "sourcesStarted ?mid" using assms by (simp add: sourcesStarted_def)
  from cleanup_returns [OF s] obtain st' where
    c: "cleanup ?mid = Inr st'"
      "sourcesRef st' = []" "scriptProcessorRef st' = None"
      "mediaStreamSourceRef st' = None" "mediaStreamRef st' = None"
      "(case audioContextRef st' of None \<Rightarrow> True | Some c \<Rightarrow> c \<notin> openContexts st')"
      "(case outputAudioContextRef st' of None \<Rightarrow> True | Some c \<Rightarrow> c \<notin> openContexts st')"
      "openContexts st' = openContexts ?mid - heldContexts ?mid"
      "liveTracks st' = liveTracks ?mid - heldTracks ?mid"
      "stoppedSources st' = stoppedSources ?mid \<union> set (sourcesRef ?mid)"
      "isSessionActive st' = isSessionActive ?mid"
      "sessionPromiseRef st' = sessionPromiseRef ?mid"
    by (elim exE conjE)
  have 1: "stopConversation env during st = Inr st'"
    using c(1) None by (simp add: stopConversation_no_promise)
  have 2: "refsReleased st'"
    using c(2-7,12) None by (simp add: refsReleased_def)
  have m: "?mid = (case sessionPromiseRef st of
                    None \<Rightarrow> st\<lparr>isSessionActive := False\<rparr>
                  | Some p \<Rightarrow> stateAtResume during st)"
    using None by simp
  from m 1 2 c(8,9,11) show ?thesis by (intro exI [of _ st'] exI [of _ ?mid] conjI)
next
  case (Some p)
  let ?mid = "stateAtResume during st"
  have s: "sourcesStarted ?mid" using assms by (rule sourcesStarted_stateAtResume)
  from stopConversationResume_returns [OF s, of env p] obtain st' where
    c: "stopConversationResume env p ?mid = Inr st'" "refsReleased st'"
      "openContexts st' = openContexts ?mid - heldContexts ?mid"
      "liveTracks st' = liveTracks ?mid - heldTracks ?mid"
      "stoppedSources st' = stoppedSources ?mid \<union> set (sourcesRef ?mid)"
      "isSessionActive st' = isSessionActive ?mid"
    by (elim exE conjE)
  have 1: "stopConversation env during st = Inr st'"
    using c(1) Some by (simp add: stopConversation_promise)
  have m: "?mid = (case sessionPromiseRef st of
                    None \<Rightarrow> st\<lparr>isSessionActive := False\<rparr>
                  | Some p \<Rightarrow> stateAtResume during st)"
    using Some by simp
  from m 1 c(2,3,4,6) show ?thesis by (intro exI [of _ st'] exI [of _ ?mid] conjI)
qed

text \<open>A stop on released refs has no promise to wait for and changes nothing but the
  mark of the session.\<close>

lemma stopConversation_refsReleased:
  assumes "refsReleased st"
  shows "stopConversation env during st = Inr (st\<lparr>isSessionActive := False\<rparr>)"
proof (cases st)
  case (fields a b c d e f g h i j k l m n p q r s t u v)
  from assms show ?thesis
    unfolding fields
    by (simp add: refsReleased_def stopConversation_def stopConversationBegin_def cleanup_def
        andThen_def Let_def split: option.splits)
qed

lemma released_iff: "released st \<longleftrightarrow> \<not> isSessionActive st \<and> refsReleased st"
  by (auto simp: released_def refsReleased_def)

lemma stopConversation_released:
  assumes "released st"
  shows "stopConversation env during st = Inr st"
proof -
  from assms have r: "refsReleased st" and a: "\<not> isSessionActive st"
    by (simp_all add: released_iff)
  from a have "st\<lparr>isSessionActive := False\<rparr> = st" by (cases st) simp
  with stopConversation_refsReleased [OF r, of env during] show ?thesis by simp
qed


text \<open>A stop during which nothing else runs: the promise had settled before the call, as
  that of an open session has.\<close>

lemma sessionsAfterStop_facts:
  "sessionsAfterStop env st \<subseteq> liveSessions st"
  "sessionPromiseRef st = Some p \<Longrightarrow> closeThrows env = None \<Longrightarrow> p \<notin> sessionsAfterStop env st"
  by (auto simp: sessionsAfterStop_def sessionsAfterClose_def split: option.splits)

lemma stopConversation_returns:
  assumes "sourcesStarted st"
  shows "\<exists>st'. stopConversation env [] st = Inr st' \<and> released st' \<and>
           openContexts st' = openContexts st - heldContexts st \<and>
           liveTracks st' = liveTracks st - heldTracks st \<and>
           stoppedSources st' = stoppedSources st \<union> set (sourcesRef st) \<and>
           error st' = error st \<and>
           transcripts st' = transcripts st \<and>
           liveSessions st' = sessionsAfterStop env st \<and>
           scheduled st' = scheduled st"
proof -
  let ?st2 = "st\<lparr>isSessionActive := False, liveSessions := sessionsAfterStop env st,
                sessionPromiseRef := None\<rparr>"
  have "sourcesStarted ?st2" using assms by (simp add: sourcesStarted_def)
  from cleanup_returns [OF this] obtain st' where
    c: "cleanup ?st2 = Inr st'"
      "sourcesRef st' = []" "scriptProcessorRef st' = None"
      "mediaStreamSourceRef st' = None" "mediaStreamRef st' = None"
      "(case audioContextRef st' of None \<Rightarrow> True | Some c \<Rightarrow> c \<notin> openContexts st')"
      "(case outputAudioContextRef st' of None \<Rightarrow> True | Some c \<Rightarrow> c \<notin> openContexts st')"
      "openContexts st' = openContexts ?st2 - heldContexts ?st2"
      "liveTracks st' = liveTracks ?st2 - heldTracks ?st2"
      "stoppedSources st' = stoppedSources ?st2 \<union> set (sourcesRef ?st2)"
      "isSessionActive st' = isSessionActive ?st2"
      "sessionPromiseRef st' = sessionPromiseRef ?st2"
      "error st' = error ?st2"
      "transcripts st' = transcripts ?st2"
      "liveSessions st' = liveSessions ?st2"
      "scheduled st' = scheduled ?st2"
    by (elim exE conjE)
  have 1: "stopConversation env [] st = Inr st'"
    using c(1) by (simp only: stopConversation_unfold)
  have 2: "released st'"
    using c(2-7,11,12) by (simp add: released_def)
  have 3: "openContexts st' = openContexts st - heldContexts st"
    using c(8) by (simp add: heldContexts_def)
  have 4: "liveTracks st' = liveTracks st - heldTracks st"
    using c(9) by (simp add: heldTracks_def)
  have 5: "stoppedSources st' = stoppedSources st \<union> set (sourcesRef st)"
    using c(10) by simp
  have 6: "error st' = error st" using c(13) by simp
  have 7: "transcripts st' = transcripts st" using c(14) by simp
  have 8: "liveSessions st' = sessionsAfterStop env st" using c(15) by simp
  have 9: "scheduled st' = scheduled st" using c(16) by simp
  from 1 2 3 4 5 6 7 8 9 show ?thesis by (intro exI [of _ st'] conjI)
qed

text \<open>
  From any state in which every tracked source is a started one (whatever refs are set:
  setup may have stopped anywhere), \<open>stopConversation\<close> returns once its promise has
  settled, whether the promise resolves or rejects, whether \<open>close\<close> throws and whatever
  ran in between; a second call returns too, at once, and changes nothing but the mark of
  the session.  Afterwards the active-segment set is empty, the capture and processing
  node refs and the stream ref are \<open>null\<close> and each context ref is \<open>null\<close> or points to a
  closed context.  The contexts closed and the tracks stopped are those the refs held
  when \<open>cleanup\<close> ran, no others.
\<close>

lemma stopConversation_total:
  assumes "sourcesStarted st"
  shows "\<exists>st'. stopConversation env during st = Inr st' \<and>
           stopConversation env' during' st' = Inr (st'\<lparr>isSessionActive := False\<rparr>) \<and>
           sourcesRef st' = [] \<and>
           scriptProcessorRef st' = None \<and>
           mediaStreamSourceRef st' = None \<and>
           mediaStreamRef st' = None \<and>
           (case audioContextRef st' of None \<Rightarrow> True | Some c \<Rightarrow> c \<notin> openContexts st') \<and>
           (case outputAudioContextRef st' of None \<Rightarrow> True | Some c \<Rightarrow> c \<notin> openContexts st')"
proof -
  from stopConversation_returns_any [OF assms, of during env] obtain st' where
    r: "stopConversation env during st = Inr st'" "refsReleased st'"
    by (elim exE conjE)
  have 2: "stopConversation env' during' st' = Inr (st'\<lparr>isSessionActive := False\<rparr>)"
    using r(2) by (rule stopConversation_refsReleased)
  have 3: "sourcesRef st' = []" "scriptProcessorRef st' = None"
    "mediaStreamSourceRef st' = None" "mediaStreamRef st' = None"
    "(case audioContextRef st' of None \<Rightarrow> True | Some c \<Rightarrow> c \<notin> openContexts st')"
    "(case outputAudioContextRef st' of None \<Rightarrow> True | Some c \<Rightarrow> c \<notin> openContexts st')"
    using r(2) by (simp_all add: refsReleased_def)
  from r(1) 2 3 show ?thesis by (intro exI [of _ st'] conjI)
qed

text \<open>Every state the view reaches from its first render has every tracked source a
  started one.\<close>

lemma sourcesStarted_reachable: "sourcesStarted (fold deliver events initialView)"
  by (rule sourcesStarted_events [OF sourcesStarted_initialView])

text \<open>When the refs hold every open context and every live track, none is left after a
  stop.  A start that runs on set refs overwrites them, and what they held is out of reach
  from then on.\<close>

lemma stopConversation_owned:
  assumes "sourcesStarted st" and "ownsAll st"
  shows "openContexts (stateOf (stopConversation env [] st)) = {}"
    and "liveTracks (stateOf (stopConversation env [] st)) = {}"
proof -
  from stopConversation_returns [OF assms(1), of env] obtain st' where
    r: "stopConversation env [] st = Inr st'"
      "openContexts st' = openContexts st - heldContexts st"
      "liveTracks st' = liveTracks st - heldTracks st"
    by (elim exE conjE)
  from r assms(2) show "openContexts (stateOf (stopConversation env [] st)) = {}"
    and "liveTracks (stateOf (stopConversation env [] st)) = {}"
    by (auto simp: ownsAll_def)
qed

lemma exampleConnecting_facts:
  "sourcesStarted exampleConnecting" "ownsAll exampleConnecting" "\<not> isSessionActive exampleConnecting"
  by (simp_all add: sourcesStarted_def ownsAll_def heldContexts_def heldTracks_def exampleConnecting_def)

lemma examplePartial_reached: "startConversation exampleNoOutputEnv initialView = examplePartial"
  by (simp add: startConversation_def startBody_def exampleNoOutputEnv_def initialView_def
      examplePartial_def Let_def)

lemma examplePartial_facts:
  "sourcesStarted examplePartial" "ownsAll examplePartial"
  by (simp_all add: sourcesStarted_def ownsAll_def heldContexts_def heldTracks_def
      examplePartial_def initialView_def)

text \<open>The stop path before the session has opened and after a setup that failed half way,
  computed.\<close>

lemma exampleConnecting_stopped:
  "stopConversation exampleStopEnv [] exampleConnecting =
     Inr (exampleConnecting\<lparr>sessionPromiseRef := None, mediaStreamRef := None,
            audioContextRef := None, outputAudioContextRef := None, openContexts := {},
            liveTracks := {}, liveSessions := {}\<rparr>)"
  by (simp add: stopConversation_def stopConversationBegin_def stopConversationResume_def
      closeSession_def cleanup_def andThen_def Let_def
      exampleStopEnv_def exampleConnecting_def closeContext_def stopTrack_def)

lemma examplePartial_stopped:
  "stopConversation exampleStopEnv [] examplePartial =
     Inr (examplePartial\<lparr>mediaStreamRef := None, audioContextRef := None, openContexts := {},
            liveTracks := {}\<rparr>)"
  by (simp add: stopConversation_def stopConversationBegin_def stopConversationResume_def
      closeSession_def cleanup_def andThen_def Let_def
      exampleStopEnv_def examplePartial_def initialView_def closeContext_def stopTrack_def)

text \<open>A stop that waits while the session opens: \<open>onopen\<close> runs between the two halves,
  marks the session active and creates the capture nodes.  The second half releases them
  with the rest, and the view is left marked active with nothing behind it.\<close>

lemma exampleConnecting_stopped_while_opening:
  "stopConversation exampleStopEnv [Opened] exampleConnecting =
     Inr (exampleConnecting\<lparr>isSessionActive := True, sessionPromiseRef := None,
            mediaStreamRef := None, audioContextRef := None, outputAudioContextRef := None,
            openContexts := {}, liveTracks := {}, connectedNodes := {2}, liveSessions := {},
            nextHandle := 6\<rparr>)"
  by (simp add: stopConversation_def stopConversationBegin_def stopConversationResume_def
      closeSession_def cleanup_def andThen_def Let_def onopen_def disconnectNode_def
      exampleStopEnv_def exampleConnecting_def closeContext_def stopTrack_def)


subsection \<open>Transport errors and remote close\<close>

lemma cleanup_liveSessions: "liveSessions (stateOf (cleanup st)) = liveSessions st"
proof -
  obtain S where S: "stateOf (forEachE stopSource (sourcesRef st) st) = st\<lparr>stoppedSources := S\<rparr>"
    using forEachE_stopSource_more [of "sourcesRef st" st] ..
  show ?thesis
  proof (cases "forEachE stopSource (sourcesRef st) st")
    case (Inl x)
    with S show ?thesis by (cases x) (simp add: cleanup_def andThen_def)
  next
    case (Inr st0)
    with S have "st0 = st\<lparr>stoppedSources := S\<rparr>" by simp
    with Inr show ?thesis
      by (simp add: cleanup_def andThen_def Let_def closeContext_def disconnectNode_def
          fold_stopTrack split: option.splits)
  qed
qed

lemma stopConversation_liveSessions:
  "liveSessions (stateOf (stopConversation env [] st)) \<subseteq> liveSessions st"
  by (simp add: stopConversation_unfold cleanup_liveSessions sessionsAfterStop_facts)






subsection \<open>The header button and a second start\<close>

text \<open>While \<open>isSessionActive\<close> is true the render shows the \<open>Stop\<close> button only: a click
  runs \<open>stopConversation\<close>, never \<open>startConversation\<close>.  This is the one guard of the start
  operation; \<open>startConversation\<close> itself has none.\<close>

lemma active_view_offers_stop:
  assumes "isSessionActive st"
  shows "renderedButton st = StopButton"
    and "clickButton senv env during st = stopConversation env during st"
    and "liveSessions (stateOf (clickButton senv env [] st)) \<subseteq> liveSessions st"
proof -
  show b: "renderedButton st = StopButton" using assms by (simp add: renderedButton_def)
  then show c: "clickButton senv env during st = stopConversation env during st" for during
    by (simp add: clickButton_def)
  show "liveSessions (stateOf (clickButton senv env [] st)) \<subseteq> liveSessions st"
    using c [of "[]"] stopConversation_liveSessions [of env st] by simp
qed

text \<open>
  The guard does not cover the time the session takes to open: \<open>isSessionActive\<close> becomes
  true in \<open>onopen\<close> only, so until then the view still shows \<open>Start\<close>.  The steps of the
  example: a click, a second click while the first session is connecting, and the two
  sessions opening.
\<close>

lemma initialView_button: "renderedButton initialView = StartButton"
  by (simp add: renderedButton_def initialView_def)

lemma exampleConnecting_button: "renderedButton exampleConnecting = StartButton"
  by (simp add: renderedButton_def exampleConnecting_def)

lemma exampleDoubled_reached: "startConversation exampleRestartEnv exampleConnecting = exampleDoubled"
  by (simp add: startConversation_def startBody_def exampleRestartEnv_def
      exampleConnecting_def exampleDoubled_def Let_def) auto

lemma exampleDoubledActive_reached:
  "stateOf (onopen (stateOf (onopen exampleDoubled))) = exampleDoubledActive"
  by (simp add: onopen_def exampleDoubled_def exampleDoubledActive_def exampleConnecting_def Let_def)
    auto

lemma exampleDoubledActive_trace:
  "fold deliver [Clicked exampleStartEnv, Clicked exampleRestartEnv, Opened, Opened] initialView =
     exampleDoubledActive"
  by (simp add: initialView_button exampleConnecting_reached exampleConnecting_button
      exampleDoubled_reached exampleDoubledActive_reached)

lemma exampleDoubledActive_facts:
  "isSessionActive exampleDoubledActive" "liveSessions exampleDoubledActive = {3, 7}"
  "sessionPromiseRef exampleDoubledActive = Some 7"
  "renderedButton exampleDoubledActive = StopButton"
  by (simp_all add: exampleDoubledActive_def exampleDoubled_def exampleConnecting_def
      renderedButton_def)

lemma exampleDoubledActive_stopped:
  "stopConversation exampleStopEnv [] exampleDoubledActive = Inr exampleLeaked"
  by (simp add: stopConversation_def stopConversationBegin_def stopConversationResume_def
      closeSession_def cleanup_def andThen_def Let_def exampleStopEnv_def
      exampleDoubledActive_def exampleDoubled_def exampleLeaked_def exampleConnecting_def
      closeContext_def stopTrack_def disconnectNode_def) auto

lemma exampleLeaked_facts:
  "released exampleLeaked" "liveTracks exampleLeaked = {0}" "openContexts exampleLeaked = {0, 1}"
  "liveSessions exampleLeaked = {3}"
  by (simp_all add: released_def exampleLeaked_def exampleDoubledActive_def exampleDoubled_def
      exampleConnecting_def)

text \<open>
  Claim C8 fails on a second click while the first session is connecting.  The first click
  leaves the view connecting with one session live and the \<open>Start\<close> button still shown;
  the second click runs \<open>startConversation\<close> again, which opens a second session and
  replaces the promise of the first.  Once both have opened the view is active with two
  sessions live.
\<close>

theorem second_click_opens_second_session:
  "renderedButton initialView = StartButton \<and>
   clickButton exampleStartEnv exampleStopEnv [] initialView = Inr exampleConnecting \<and>
   liveSessions exampleConnecting = {3} \<and>
   sessionPromiseRef exampleConnecting = Some 3 \<and>
   renderedButton exampleConnecting = StartButton \<and>
   clickButton exampleRestartEnv exampleStopEnv [] exampleConnecting = Inr exampleDoubled \<and>
   liveSessions exampleDoubled = {3, 7} \<and>
   sessionPromiseRef exampleDoubled = Some 7 \<and>
   fold deliver [Clicked exampleStartEnv, Clicked exampleRestartEnv, Opened, Opened] initialView =
     exampleDoubledActive \<and>
   isSessionActive exampleDoubledActive \<and>
   liveSessions exampleDoubledActive = {3, 7}"
proof -
  have 1: "clickButton exampleStartEnv exampleStopEnv [] initialView = Inr exampleConnecting"
    by (simp add: clickButton_def initialView_button exampleConnecting_reached)
  have 2: "liveSessions exampleConnecting = {3}" "sessionPromiseRef exampleConnecting = Some 3"
    by (simp_all add: exampleConnecting_def)
  have 3: "clickButton exampleRestartEnv exampleStopEnv [] exampleConnecting = Inr exampleDoubled"
    by (simp add: clickButton_def exampleConnecting_button exampleDoubled_reached)
  have 4: "liveSessions exampleDoubled = {3, 7}" "sessionPromiseRef exampleDoubled = Some 7"
    by (simp_all add: exampleDoubled_def exampleConnecting_def)
  from initialView_button 1 2 exampleConnecting_button 3 4 exampleDoubledActive_trace
    exampleDoubledActive_facts(1,2)
  show ?thesis by (intro conjI)
qed

text \<open>
  Claim C3 fails on the stop that follows.  With both sessions open the view shows \<open>Stop\<close>;
  the click runs \<open>stopConversation\<close>, which returns with the refs released, and so does a
  second call, which changes nothing.  But the refs held the second start's stream and
  contexts only: the first start's track 0 is live still and its contexts 0 and 1 are
  open, and its session 3 was never closed.
\<close>

theorem stop_after_second_start_leaks:
  "fold deliver [Clicked exampleStartEnv, Clicked exampleRestartEnv, Opened, Opened] initialView =
     exampleDoubledActive \<and>
   renderedButton exampleDoubledActive = StopButton \<and>
   clickButton exampleRestartEnv exampleStopEnv [] exampleDoubledActive = Inr exampleLeaked \<and>
   stopConversation exampleStopEnv [] exampleLeaked = Inr exampleLeaked \<and>
   released exampleLeaked \<and>
   liveTracks exampleLeaked = {0} \<and>
   openContexts exampleLeaked = {0, 1} \<and>
   liveSessions exampleLeaked = {3}"
proof -
  have 1: "clickButton exampleRestartEnv exampleStopEnv [] exampleDoubledActive = Inr exampleLeaked"
    by (simp add: clickButton_def exampleDoubledActive_facts(4) exampleDoubledActive_stopped)
  have 2: "stopConversation exampleStopEnv [] exampleLeaked = Inr exampleLeaked"
    by (rule stopConversation_released [OF exampleLeaked_facts(1)])
  from exampleDoubledActive_trace exampleDoubledActive_facts(4) 1 2 exampleLeaked_facts
  show ?thesis by (intro conjI)
qed

text \<open>The same when the view is left while both sessions are connecting: the stop waits for
  the second session's promise, the sessions open meanwhile, and the first start's track,
  contexts and session are left as before.\<close>

lemma exampleDoubled_stopped_while_opening:
  "stopConversation exampleStopEnv [Opened, Opened] exampleDoubled =
     Inr (exampleLeaked\<lparr>isSessionActive := True\<rparr>)"
  by (simp add: stopConversation_def stopConversationBegin_def stopConversationResume_def
      closeSession_def cleanup_def andThen_def Let_def exampleStopEnv_def onopen_def
      exampleDoubledActive_def exampleDoubled_def exampleLeaked_def exampleConnecting_def
      closeContext_def stopTrack_def disconnectNode_def) auto

section \<open>Properties: audio codec\<close>

lemma int16Bytes_inverse:
  "ucast (ucast (w :: 16 word) :: byte) OR push_bit 8 (ucast (ucast (drop_bit 8 w) :: byte)) = w"
  by (rule bit_word_eqI) (auto simp: bit_simps)

lemma bytesInt16_pcmBytes:
  "bytesInt16 (pcmBytes rnd samples) = map (\<lambda>s. word_of_int (quantizeSample rnd s)) samples"
  by (induction samples) (simp_all add: pcmBytes_def int16Bytes_def int16Bytes_inverse)

lemma clampInt16_range: "- 32768 \<le> clampInt16 k" "clampInt16 k \<le> 32767"
  by (simp_all add: clampInt16_def)

lemma sint_quantized: "sint (word_of_int (clampInt16 k) :: 16 word) = clampInt16 k"
proof -
  have "signed_take_bit 15 (clampInt16 k) = clampInt16 k"
    using clampInt16_range [of k] by (intro signed_take_bit_int_eq_self) simp_all
  then show ?thesis by (simp add: sint_sbintrunc')
qed

lemma normalizeSample_quantized:
  "normalizeSample (word_of_int (quantizeSample rnd s)) = real_of_int (quantizeSample rnd s) / 32768"
  by (simp add: normalizeSample_def quantizeSample_def sint_quantized)

lemma clampSample_range: "- 1 \<le> clampSample s" "clampSample s \<le> 1"
  by (simp_all add: clampSample_def)

text \<open>Rounding within one unit and clamping to 16 bits stays within one unit of a scaled
  sample.\<close>

lemma clampInt16_close:
  fixes x :: real
  assumes "\<bar>real_of_int k - x\<bar> < 1" and "- 32768 \<le> x" and "x \<le> 32768"
  shows "\<bar>real_of_int (clampInt16 k) - x\<bar> \<le> 1"
proof -
  consider "k < - 32768" | "- 32768 \<le> k \<and> k \<le> 32767" | "32767 < k" by linarith
  then show ?thesis
  proof cases
    case 1
    then have "real_of_int k \<le> - 32769" by linarith
    with assms show ?thesis by linarith
  next
    case 2
    then have "clampInt16 k = k" by (simp add: clampInt16_def)
    with assms(1) show ?thesis by simp
  next
    case 3
    then have k: "32768 \<le> real_of_int k" by linarith
    from 3 have "clampInt16 k = 32767" by (simp add: clampInt16_def)
    with k assms show ?thesis by simp
  qed
qed

lemma quantizeSample_close:
  assumes "\<forall>x. \<bar>real_of_int (rnd x) - x\<bar> < 1"
  shows "\<bar>real_of_int (quantizeSample rnd s) / 32768 - clampSample s\<bar> \<le> 1 / 32768"
proof -
  let ?x = "clampSample s * 32768"
  have "\<bar>real_of_int (rnd ?x) - ?x\<bar> < 1" using assms by blast
  moreover have "- 32768 \<le> ?x" "?x \<le> 32768" using clampSample_range [of s] by simp_all
  ultimately have "\<bar>real_of_int (clampInt16 (rnd ?x)) - ?x\<bar> \<le> 1"
    by (rule clampInt16_close)
  then have "\<bar>(real_of_int (clampInt16 (rnd ?x)) - ?x) / 32768\<bar> \<le> 1 / 32768"
    by (simp add: abs_divide)
  then show ?thesis by (simp add: quantizeSample_def diff_divide_distrib)
qed

text \<open>A sample at or beyond a boundary is stored as the boundary value of the 16-bit range.\<close>

lemma quantizeSample_high:
  assumes "\<forall>x. \<bar>real_of_int (rnd x) - x\<bar> < 1" and "1 \<le> s"
  shows "quantizeSample rnd s = 32767"
proof -
  from assms(2) have c: "clampSample s * 32768 = 32768" by (simp add: clampSample_def)
  from assms(1) have "\<bar>real_of_int (rnd 32768) - 32768\<bar> < 1" by blast
  then have "32767 < rnd 32768" by linarith
  then show ?thesis by (simp add: quantizeSample_def c clampInt16_def)
qed

lemma quantizeSample_low:
  assumes "\<forall>x. \<bar>real_of_int (rnd x) - x\<bar> < 1" and "s \<le> - 1"
  shows "quantizeSample rnd s = - 32768"
proof -
  from assms(2) have c: "clampSample s * 32768 = - 32768" by (simp add: clampSample_def)
  from assms(1) have "\<bar>real_of_int (rnd (- 32768)) - (- 32768)\<bar> < 1" by blast
  then have "rnd (- 32768) < - 32767" by linarith
  then show ?thesis by (simp add: quantizeSample_def c clampInt16_def)
qed

lemma map_nth_fun: "map (\<lambda>i. f (xs ! i)) [0..<length xs] = map f xs"
  by (rule nth_equalityI) simp_all

lemma decodeAudioData_mono:
  "decodeAudioData bytes rate (Suc 0) =
     Inr \<lparr>sampleRate = rate, frameCount = length (bytesInt16 bytes),
          channelData = [map normalizeSample (bytesInt16 bytes)]\<rparr>"
  by (simp add: decodeAudioData_def Let_def map_nth_fun)

lemma roundTrip_buffer:
  assumes "decode (blobBase64 (createAudioBlob encode rnd samples)) = Inr (pcmBytes rnd samples)"
  shows "roundTrip encode decode rnd samples =
           Inr \<lparr>sampleRate = 16000, frameCount = length samples,
                channelData = [map (\<lambda>s. real_of_int (quantizeSample rnd s) / 32768) samples]\<rparr>"
  using assms
  by (simp add: roundTrip_def decodeAudioData_mono bytesInt16_pcmBytes normalizeSample_quantized
      comp_def)

text \<open>
  Claim C9.  Encoding a sample sequence with \<open>createAudioBlob\<close>, undoing the base64 step and
  decoding with \<open>decodeAudioData\<close> as one channel yields as many samples as went in, each
  within 1/32768 of the input clamped to [-1, 1]: of the input itself when it lies in
  [-1, 1], the boundaries included.  An input at or above 1 comes back as 32767/32768 and
  one at or below -1 as -1: clamped, not wrapped.  This holds for every rounding that stays
  within one unit of its argument.
\<close>

theorem createAudioBlob_decodeAudioData_roundtrip:
  assumes "\<forall>x. \<bar>real_of_int (rnd x) - x\<bar> < 1"
    and "decode (blobBase64 (createAudioBlob encode rnd samples)) = Inr (pcmBytes rnd samples)"
  shows "\<exists>buf out.
           roundTrip encode decode rnd samples = Inr buf \<and>
           channelData buf = [out] \<and>
           length out = length samples \<and>
           (\<forall>i < length samples.
              \<bar>out ! i - clampSample (samples ! i)\<bar> \<le> 1 / 32768 \<and>
              (- 1 \<le> samples ! i \<and> samples ! i \<le> 1 \<longrightarrow> \<bar>out ! i - samples ! i\<bar> \<le> 1 / 32768) \<and>
              (1 \<le> samples ! i \<longrightarrow> out ! i = 32767 / 32768) \<and>
              (samples ! i \<le> - 1 \<longrightarrow> out ! i = - 1))"
proof -
  let ?out = "map (\<lambda>s. real_of_int (quantizeSample rnd s) / 32768) samples"
  let ?buf = "\<lparr>sampleRate = 16000, frameCount = length samples, channelData = [?out]\<rparr>"
  have r: "roundTrip encode decode rnd samples = Inr ?buf"
    using assms(2) by (rule roundTrip_buffer)
  have each: "\<bar>?out ! i - clampSample (samples ! i)\<bar> \<le> 1 / 32768 \<and>
              (- 1 \<le> samples ! i \<and> samples ! i \<le> 1 \<longrightarrow> \<bar>?out ! i - samples ! i\<bar> \<le> 1 / 32768) \<and>
              (1 \<le> samples ! i \<longrightarrow> ?out ! i = 32767 / 32768) \<and>
              (samples ! i \<le> - 1 \<longrightarrow> ?out ! i = - 1)"
    if i: "i < length samples" for i
  proof -
    have o: "?out ! i = real_of_int (quantizeSample rnd (samples ! i)) / 32768"
      using i by simp
    have 1: "\<bar>?out ! i - clampSample (samples ! i)\<bar> \<le> 1 / 32768"
      unfolding o by (rule quantizeSample_close [OF assms(1)])
    have 2: "\<bar>?out ! i - samples ! i\<bar> \<le> 1 / 32768"
      if "- 1 \<le> samples ! i \<and> samples ! i \<le> 1"
    proof -
      from that have "clampSample (samples ! i) = samples ! i" by (simp add: clampSample_def)
      with 1 show ?thesis by simp
    qed
    have 3: "?out ! i = 32767 / 32768" if "1 \<le> samples ! i"
      unfolding o by (simp add: quantizeSample_high [OF assms(1) that])
    have 4: "?out ! i = - 1" if "samples ! i \<le> - 1"
      unfolding o by (simp add: quantizeSample_low [OF assms(1) that])
    from 1 2 3 4 show ?thesis by blast
  qed
  have "roundTrip encode decode rnd samples = Inr ?buf \<and>
           channelData ?buf = [?out] \<and>
           length ?out = length samples \<and>
           (\<forall>i < length samples.
              \<bar>?out ! i - clampSample (samples ! i)\<bar> \<le> 1 / 32768 \<and>
              (- 1 \<le> samples ! i \<and> samples ! i \<le> 1 \<longrightarrow> \<bar>?out ! i - samples ! i\<bar> \<le> 1 / 32768) \<and>
              (1 \<le> samples ! i \<longrightarrow> ?out ! i = 32767 / 32768) \<and>
              (samples ! i \<le> - 1 \<longrightarrow> ?out ! i = - 1))"
    using r each by simp
  then show ?thesis by blast
qed

lemma truncToInt_close: "\<forall>x. \<bar>real_of_int (truncToInt x) - x\<bar> < 1"
proof
  fix x :: real
  show "\<bar>real_of_int (truncToInt x) - x\<bar> < 1"
    unfolding truncToInt_def by (cases "x < 0") (simp_all, linarith+)
qed

lemma exampleSamples_bytes: "pcmBytes truncToInt exampleSamples = exampleBytes"
  by (simp add: pcmBytes_def exampleSamples_def exampleBytes_def quantizeSample_def
      clampSample_def clampInt16_def truncToInt_def int16Bytes_def)

lemma example_transport:
  "exampleDecodeBytes (blobBase64 (createAudioBlob exampleEncode truncToInt exampleSamples)) =
     Inr (pcmBytes truncToInt exampleSamples)"
  by (simp add: createAudioBlob_def exampleSamples_bytes exampleEncode_def exampleDecodeBytes_def)

text \<open>Claim C9 at the example samples, rounded toward zero.\<close>

theorem createAudioBlob_decodeAudioData_roundtrip_witness:
  "\<exists>buf out.
     roundTrip exampleEncode exampleDecodeBytes truncToInt exampleSamples = Inr buf \<and>
     channelData buf = [out] \<and>
     length out = length exampleSamples \<and>
     (\<forall>i < length exampleSamples.
        \<bar>out ! i - clampSample (exampleSamples ! i)\<bar> \<le> 1 / 32768 \<and>
        (- 1 \<le> exampleSamples ! i \<and> exampleSamples ! i \<le> 1 \<longrightarrow>
           \<bar>out ! i - exampleSamples ! i\<bar> \<le> 1 / 32768) \<and>
        (1 \<le> exampleSamples ! i \<longrightarrow> out ! i = 32767 / 32768) \<and>
        (exampleSamples ! i \<le> - 1 \<longrightarrow> out ! i = - 1))"
  by (rule createAudioBlob_decodeAudioData_roundtrip
      [where rnd = truncToInt and decode = exampleDecodeBytes and encode = exampleEncode
         and samples = exampleSamples, OF truncToInt_close example_transport])

text \<open>The example, computed: 1 and 2 come back as 32767/32768, -1 and 1/2 as themselves.\<close>

lemma example_roundTrip:
  "roundTrip exampleEncode exampleDecodeBytes truncToInt exampleSamples =
     Inr \<lparr>sampleRate = 16000, frameCount = 4,
          channelData = [[32767 / 32768, - 1, 1 / 2, 32767 / 32768]]\<rparr>"
  by (simp add: roundTrip_buffer [where decode = exampleDecodeBytes and encode = exampleEncode
          and rnd = truncToInt and samples = exampleSamples, OF example_transport])
    (simp add: exampleSamples_def quantizeSample_def clampSample_def clampInt16_def truncToInt_def)

text \<open>A last byte without its pair is dropped.\<close>

lemma bytesInt16_odd: "bytesInt16 (pcmBytes rnd samples @ [b]) = bytesInt16 (pcmBytes rnd samples)"
  by (induction samples) (simp_all add: pcmBytes_def int16Bytes_def)

end
